theory Spec2Isabelle
  imports Complex_Main "HOL-Library.Word"
begin

section \<open>JavaScript strings and arrays\<close>

text \<open>
  A JavaScript string is a sequence of UTF-16 code units, so the model is a list of
  16-bit words. \<open>js\<close> embeds an ASCII literal. Only the string operations the
  program calls are modelled: \<^verbatim>\<open>split("\n")\<close>, \<^verbatim>\<open>trim()\<close>, \<^verbatim>\<open>length\<close> and
  \<^verbatim>\<open>Array.prototype.slice(start)\<close>.
\<close>

type_synonym jschar = "16 word"
type_synonym jsstring = "jschar list"

definition js :: "string \<Rightarrow> jsstring" where
  "js s = map of_char s"

definition LF :: jschar where
  "LF = 0x0A"

text \<open>White space and line terminators of ECMAScript, the code units \<^verbatim>\<open>trim\<close> strips.\<close>

definition is_ws :: "jschar \<Rightarrow> bool" where
  "is_ws c = (c = 0x09 \<or> c = 0x0A \<or> c = 0x0B \<or> c = 0x0C \<or> c = 0x0D \<or> c = 0x20
     \<or> c = 0xA0 \<or> c = 0x1680 \<or> (0x2000 \<le> c \<and> c \<le> 0x200A) \<or> c = 0x2028
     \<or> c = 0x2029 \<or> c = 0x202F \<or> c = 0x205F \<or> c = 0x3000 \<or> c = 0xFEFF)"

definition trim :: "jsstring \<Rightarrow> jsstring" where
  "trim s = rev (dropWhile is_ws (rev (dropWhile is_ws s)))"

text \<open>\<^verbatim>\<open>s.split("\n")\<close>: always at least one piece; \<open>n\<close> newlines give \<open>n + 1\<close> pieces.\<close>

fun split_nl :: "jsstring \<Rightarrow> jsstring list" where
  "split_nl [] = [[]]"
| "split_nl (c # cs) =
     (if c = LF then [] # split_nl cs
      else (case split_nl cs of [] \<Rightarrow> [[c]] | l # ls \<Rightarrow> (c # l) # ls))"

text \<open>
  \<^verbatim>\<open>xs.slice(start)\<close> for an integer \<open>start\<close>: a negative start counts from the end
  and is clamped at the first element, a positive one is clamped at the length.
\<close>

definition array_slice :: "int \<Rightarrow> 'a list \<Rightarrow> 'a list" where
  "array_slice start xs =
     (let len = int (length xs);
          k = (if start < 0 then max (len + start) 0 else min start len)
      in drop (nat k) xs)"

section \<open>Errors\<close>

datatype fsop = Mkdir | WriteFile | AppendFile | ReadFile

type_synonym path = jsstring

datatype error =
    DirectConstruction
  | FileNameRequired
  | AlreadyRegistering jsstring
  | NotRegistered jsstring
  | ReplayInProgress
  | EmptyContent
  | NegativeEventNumber
  | ProcessorRequired
  | NegativeNumberOfEvents
  | ReplayFailed nat nat
  | IOError fsop path
  | SyntaxError
  | TypeError
  | Thrown jsstring

section \<open>WAL.ts: the handle and its builder\<close>

datatype symbol = Symbol nat

definition builderKey :: symbol where
  "builderKey = Symbol 0"

record WAL =
  fileName :: jsstring

definition WAL_new :: "symbol \<Rightarrow> jsstring \<Rightarrow> error + WAL" where
  "WAL_new key name =
     (if key \<noteq> builderKey then Inl DirectConstruction
      else Inr \<lparr>fileName = name\<rparr>)"

text \<open>The builder's field is optional: \<open>None\<close> is \<^verbatim>\<open>undefined\<close>.\<close>

record WALBuilder =
  builder_fileName :: "jsstring option"

definition WAL_builder :: WALBuilder where
  "WAL_builder = \<lparr>builder_fileName = None\<rparr>"

definition WALBuilder_file :: "jsstring \<Rightarrow> WALBuilder \<Rightarrow> WALBuilder" where
  "WALBuilder_file name b = b\<lparr>builder_fileName := Some name\<rparr>"

text \<open>\<^verbatim>\<open>!this._fileName\<close> holds for \<^verbatim>\<open>undefined\<close> and for the empty string.\<close>

definition WALBuilder_build :: "WALBuilder \<Rightarrow> error + WAL" where
  "WALBuilder_build b =
     (case builder_fileName b of
        None \<Rightarrow> Inl FileNameRequired
      | Some name \<Rightarrow>
          if name = [] then Inl FileNameRequired else WAL_new builderKey name)"

section \<open>The file system the registry writes to\<close>

text \<open>
  The calls of \<^verbatim>\<open>fs/promises\<close> the program makes, on a flat store of directories
  and files. \<open>faulty\<close> is the environment: the operations that raise an I/O error.
  \<^verbatim>\<open>access(p, F_OK)\<close> is the existence test. A failed write leaves the store as it was.
  \<open>join\<close> is \<^verbatim>\<open>path.join\<close> of the platform: it is not code of the program, so it is
  left open, and no operation changes it.
\<close>

record fsys =
  dirs :: "path set"
  files :: "path \<rightharpoonup> jsstring"
  faulty :: "fsop \<Rightarrow> path \<Rightarrow> bool"
  join :: "path \<Rightarrow> jsstring \<Rightarrow> path"

definition fs_mkdir :: "path \<Rightarrow> fsys \<Rightarrow> error option \<times> fsys" where
  "fs_mkdir p s =
     (if faulty s Mkdir p \<or> files s p \<noteq> None then (Some (IOError Mkdir p), s)
      else (None, s\<lparr>dirs := insert p (dirs s)\<rparr>))"

definition fs_access :: "path \<Rightarrow> fsys \<Rightarrow> bool" where
  "fs_access p s = (p \<in> dirs s \<or> files s p \<noteq> None)"

definition fs_writeFile :: "path \<Rightarrow> jsstring \<Rightarrow> fsys \<Rightarrow> error option \<times> fsys" where
  "fs_writeFile p d s =
     (if faulty s WriteFile p \<or> p \<in> dirs s then (Some (IOError WriteFile p), s)
      else (None, s\<lparr>files := (files s)(p \<mapsto> d)\<rparr>))"

definition fs_appendFile :: "path \<Rightarrow> jsstring \<Rightarrow> fsys \<Rightarrow> error option \<times> fsys" where
  "fs_appendFile p d s =
     (if faulty s AppendFile p \<or> p \<in> dirs s then (Some (IOError AppendFile p), s)
      else (None, s\<lparr>files := (files s)(p \<mapsto> (case files s p of None \<Rightarrow> d | Some old \<Rightarrow> old @ d))\<rparr>))"

definition fs_readFile :: "path \<Rightarrow> fsys \<Rightarrow> error + jsstring" where
  "fs_readFile p s =
     (if faulty s ReadFile p then Inl (IOError ReadFile p)
      else (case files s p of None \<Rightarrow> Inl (IOError ReadFile p) | Some c \<Rightarrow> Inr c))"

section \<open>WalManager.ts: the registry\<close>

text \<open>
  The registry's fields and the file system it acts on. Every operation below is run
  to completion (awaited), so the per-name chain \<^verbatim>\<open>_pendingOps\<close> is empty before and
  after each of them and is left out of the state.
\<close>

record manager =
  baseDir :: path
  logs :: "jsstring \<rightharpoonup> WAL"
  registering :: "jsstring set"
  fs :: fsys

definition ensureBaseDir :: "manager \<Rightarrow> error option \<times> manager" where
  "ensureBaseDir m =
     (case fs_mkdir (baseDir m) (fs m) of (r, s) \<Rightarrow> (r, m\<lparr>fs := s\<rparr>))"

text \<open>The \<^verbatim>\<open>finally\<close> block of \<^verbatim>\<open>register\<close>.\<close>

definition register_finally :: "WAL \<Rightarrow> manager \<Rightarrow> manager" where
  "register_finally wal m = m\<lparr>registering := registering m - {fileName wal}\<rparr>"

definition register :: "WAL \<Rightarrow> manager \<Rightarrow> (error + unit) \<times> manager" where
  "register wal m =
     (if fileName wal \<in> registering m then (Inl (AlreadyRegistering (fileName wal)), m)
      else if logs m (fileName wal) \<noteq> None then (Inr (), m)
      else
        let m1 = m\<lparr>registering := insert (fileName wal) (registering m)\<rparr> in
        (case ensureBaseDir m1 of
           (Some e, m2) \<Rightarrow> (Inl e, register_finally wal m2)
         | (None, m2) \<Rightarrow>
             let filePath = join (fs m2) (baseDir m2) (fileName wal);
                 m3 = m2\<lparr>logs := (logs m2)(fileName wal \<mapsto> wal)\<rparr>
             in if fs_access filePath (fs m3) then (Inr (), register_finally wal m3)
                else (case fs_writeFile filePath [] (fs m3) of
                        (Some e, s) \<Rightarrow> (Inl e, register_finally wal (m3\<lparr>fs := s\<rparr>))
                      | (None, s) \<Rightarrow> (Inr (), register_finally wal (m3\<lparr>fs := s\<rparr>)))))"

text \<open>
  The registry states in which a call of \<^verbatim>\<open>register\<close> that passed both checks is
  suspended at an \<^verbatim>\<open>await\<close>: before \<^verbatim>\<open>mkdir\<close>, and (when \<^verbatim>\<open>mkdir\<close> succeeds)
  before \<^verbatim>\<open>access\<close> and \<^verbatim>\<open>writeFile\<close>. Another caller can run in each of them.
\<close>

definition register_suspended :: "WAL \<Rightarrow> manager \<Rightarrow> manager list" where
  "register_suspended wal m =
     (let m1 = m\<lparr>registering := insert (fileName wal) (registering m)\<rparr> in
      (case ensureBaseDir m1 of
         (Some e, m2) \<Rightarrow> [m1]
       | (None, m2) \<Rightarrow> [m1, m2\<lparr>logs := (logs m2)(fileName wal \<mapsto> wal)\<rparr>]))"

definition WALManager_append :: "jsstring \<Rightarrow> jsstring \<Rightarrow> manager \<Rightarrow> (error + unit) \<times> manager" where
  "WALManager_append name d m =
     (case logs m name of
        None \<Rightarrow> (Inl (NotRegistered name), m)
      | Some wal \<Rightarrow>
          (case fs_appendFile (join (fs m) (baseDir m) (fileName wal)) (d @ [LF]) (fs m) of
             (Some e, s) \<Rightarrow> (Inl e, m\<lparr>fs := s\<rparr>)
           | (None, s) \<Rightarrow> (Inr (), m\<lparr>fs := s\<rparr>)))"

definition WALManager_read :: "jsstring \<Rightarrow> manager \<Rightarrow> error + jsstring" where
  "WALManager_read name m =
     (case logs m name of
        None \<Rightarrow> Inl (NotRegistered name)
      | Some wal \<Rightarrow> fs_readFile (join (fs m) (baseDir m) (fileName wal)) (fs m))"


section \<open>DurabilityManager.ts: the replay engine\<close>

record ReplayResult =
  success :: bool
  processedCount :: nat
  failedCount :: nat
  errors :: "(jsstring \<times> error \<times> nat) list"

text \<open>
  A JavaScript number is the real value of the double, the retry count an integer.
\<close>

record RetryConfig =
  maxRetries :: int
  initialDelayMs :: real
  maxDelayMs :: real
  backoffMultiplier :: real

definition DEFAULT_RETRY_CONFIG :: RetryConfig where
  "DEFAULT_RETRY_CONFIG =
     \<lparr>maxRetries = 3, initialDelayMs = 100, maxDelayMs = 5000, backoffMultiplier = 2\<rparr>"

text \<open>
  Everything a caller's function can change: the registry with its files, the engine's
  single-flight flag, the number of \<^verbatim>\<open>Math.random\<close> draws made so far, and the
  caller's own state. A processor or an observer is a function on this state that
  either returns (\<open>None\<close>) or throws (\<open>Some e\<close>).
\<close>

record 's world =
  wm :: manager
  isReplaying :: bool
  draws :: nat
  caller :: 's

type_synonym 's processor = "jsstring \<Rightarrow> 's world \<Rightarrow> error option \<times> 's world"
type_synonym 's observer = "jsstring \<Rightarrow> bool \<Rightarrow> 's world \<Rightarrow> error option \<times> 's world"

record 's DurabilityConfig =
  config_walFileName :: jsstring
  config_retryConfig :: "RetryConfig option"
  config_onEventProcessed :: "'s observer option"

record 's DurabilityManager =
  walFileName :: jsstring
  retryConfig :: RetryConfig
  onEventProcessed :: "'s observer option"

definition DurabilityManager_new :: "'s DurabilityConfig \<Rightarrow> 's DurabilityManager" where
  "DurabilityManager_new config =
     \<lparr>walFileName = config_walFileName config,
      retryConfig = (case config_retryConfig config of None \<Rightarrow> DEFAULT_RETRY_CONFIG | Some c \<Rightarrow> c),
      onEventProcessed = config_onEventProcessed config\<rparr>"

text \<open>
  What the engine does to its surroundings, in order: it invokes the processor it was
  given, sleeps, notifies the observer and prints a diagnostic.
\<close>

datatype action =
    Invoke jsstring
  | Sleep int
  | Notify jsstring bool
  | Diagnostic jsstring nat error

text \<open>
  \<^verbatim>\<open>Math.random\<close> and the arithmetic of doubles are not code of the program; they are
  parameters of the engine. \<open>random_at i\<close> is the value the \<open>i\<close>-th call of
  \<^verbatim>\<open>Math.random\<close> returns; \<open>mul64\<close>, \<open>add64\<close>, \<open>sub64\<close> and \<open>pow64\<close> are
  \<^verbatim>\<open>*\<close>, \<^verbatim>\<open>+\<close>, \<^verbatim>\<open>-\<close> and \<^verbatim>\<open>Math.pow\<close> on doubles, rounding included.
  \<^verbatim>\<open>Math.min\<close> and \<^verbatim>\<open>Math.floor\<close> are exact.
\<close>

record jsmath =
  random_at :: "nat \<Rightarrow> real"
  mul64 :: "real \<Rightarrow> real \<Rightarrow> real"
  add64 :: "real \<Rightarrow> real \<Rightarrow> real"
  sub64 :: "real \<Rightarrow> real \<Rightarrow> real"
  pow64 :: "real \<Rightarrow> nat \<Rightarrow> real"

definition Math_random :: "jsmath \<Rightarrow> 's world \<Rightarrow> real \<times> 's world" where
  "Math_random math w = (random_at math (draws w), w\<lparr>draws := draws w + 1\<rparr>)"

definition calculateBackoffDelay ::
  "RetryConfig \<Rightarrow> jsmath \<Rightarrow> nat \<Rightarrow> 's world \<Rightarrow> int \<times> 's world" where
  "calculateBackoffDelay cfg math attempt w =
     (let exponentialDelay =
            mul64 math (initialDelayMs cfg) (pow64 math (backoffMultiplier cfg) attempt);
          cappedDelay = min exponentialDelay (maxDelayMs cfg)
      in (case Math_random math w of
            (r, w') \<Rightarrow>
              let jitter =
                    mul64 math (mul64 math cappedDelay 0.25) (sub64 math (mul64 math r 2) 1)
              in (\<lfloor>add64 math cappedDelay jitter\<rfloor>, w')))"

text \<open>
  The \<^verbatim>\<open>for\<close> loop of \<^verbatim>\<open>processEventWithRetry\<close>, from loop counter \<open>attempt\<close> on.
  \<^verbatim>\<open>attemptCount\<close> equals the loop counter when the loop is left.
\<close>

function retry_loop ::
  "RetryConfig \<Rightarrow> jsmath \<Rightarrow> jsstring \<Rightarrow> 's processor \<Rightarrow> nat \<Rightarrow> error option \<Rightarrow> 's world
     \<Rightarrow> bool \<times> 's world \<times> action list" where
  "retry_loop cfg math event processor attempt lastError w =
     (if int attempt \<le> maxRetries cfg then
        (case processor event w of
           (None, w1) \<Rightarrow> (True, w1, [Invoke event])
         | (Some err, w1) \<Rightarrow>
             (if int attempt < maxRetries cfg then
                (case calculateBackoffDelay cfg math attempt w1 of
                   (delay, w2) \<Rightarrow>
                     (case retry_loop cfg math event processor (attempt + 1) (Some err) w2 of
                        (ok, w3, tr) \<Rightarrow> (ok, w3, Invoke event # Sleep delay # tr)))
              else
                (case retry_loop cfg math event processor (attempt + 1) (Some err) w1 of
                   (ok, w3, tr) \<Rightarrow> (ok, w3, Invoke event # tr))))
      else
        (False, w, (case lastError of None \<Rightarrow> [] | Some err \<Rightarrow> [Diagnostic event attempt err])))"
  by pat_completeness auto
termination
  by (relation "measure (\<lambda>(cfg, math, event, processor, attempt, lastError, w).
        nat (maxRetries cfg + 1 - int attempt))") auto

definition processEventWithRetry ::
  "'s DurabilityManager \<Rightarrow> jsmath \<Rightarrow> jsstring \<Rightarrow> 's processor \<Rightarrow> 's world
     \<Rightarrow> bool \<times> 's world \<times> action list" where
  "processEventWithRetry dm math event processor w =
     retry_loop (retryConfig dm) math event processor 0 None w"

text \<open>\<^verbatim>\<open>this.onEventProcessed?.(event, ok)\<close>: an observer that throws ends the replay.\<close>

definition notify ::
  "'s DurabilityManager \<Rightarrow> jsstring \<Rightarrow> bool \<Rightarrow> 's world \<Rightarrow> error option \<times> 's world \<times> action list" where
  "notify dm event ok w =
     (case onEventProcessed dm of
        None \<Rightarrow> (None, w, [])
      | Some f \<Rightarrow> (case f event ok w of (r, w') \<Rightarrow> (r, w', [Notify event ok])))"

text \<open>The \<^verbatim>\<open>for ... of\<close> loop of \<^verbatim>\<open>replay\<close> over the selected events.\<close>

fun replay_events ::
  "'s DurabilityManager \<Rightarrow> jsmath \<Rightarrow> 's processor \<Rightarrow> jsstring list \<Rightarrow> ReplayResult \<Rightarrow> 's world
     \<Rightarrow> (error + ReplayResult) \<times> 's world \<times> action list" where
  "replay_events dm math processor [] result w = (Inr result, w, [])"
| "replay_events dm math processor (event # rest) result w =
     (case processEventWithRetry dm math event processor w of
        (ok, w1, tr1) \<Rightarrow>
          let result1 =
                (if ok then result\<lparr>processedCount := processedCount result + 1\<rparr>
                 else result\<lparr>failedCount := failedCount result + 1, success := False\<rparr>)
          in (case notify dm event ok w1 of
                (Some e, w2, tr2) \<Rightarrow> (Inl e, w2, tr1 @ tr2)
              | (None, w2, tr2) \<Rightarrow>
                  (case replay_events dm math processor rest result1 w2 of
                     (r, w3, tr3) \<Rightarrow> (r, w3, tr1 @ tr2 @ tr3))))"

definition DurabilityManager_read :: "'s DurabilityManager \<Rightarrow> 's world \<Rightarrow> error + jsstring" where
  "DurabilityManager_read dm w = WALManager_read (walFileName dm) (wm w)"

definition DurabilityManager_append ::
  "'s DurabilityManager \<Rightarrow> jsstring \<Rightarrow> 's world \<Rightarrow> (error + unit) \<times> 's world" where
  "DurabilityManager_append dm content w =
     (case WALManager_append (walFileName dm) content (wm w) of
        (r, m) \<Rightarrow> (r, w\<lparr>wm := m\<rparr>))"

text \<open>The events \<^verbatim>\<open>replay\<close> selects from the content it read.\<close>

definition eventsToReplay :: "int \<Rightarrow> jsstring \<Rightarrow> jsstring list" where
  "eventsToReplay count content =
     (let events = filter (\<lambda>line. 0 < length (trim line)) (split_nl content)
      in if count \<le> 0 then [] else array_slice (- count) events)"

definition initial_result :: ReplayResult where
  "initial_result = \<lparr>success = True, processedCount = 0, failedCount = 0, errors = []\<rparr>"

text \<open>The \<^verbatim>\<open>try\<close> block of \<^verbatim>\<open>replay\<close>, entered with the flag set.\<close>

definition replay_try ::
  "'s DurabilityManager \<Rightarrow> jsmath \<Rightarrow> int \<Rightarrow> 's processor \<Rightarrow> 's world
     \<Rightarrow> (error + ReplayResult) \<times> 's world \<times> action list" where
  "replay_try dm math count processor w0 =
     (case WALManager_read (walFileName dm) (wm w0) of
        Inl e \<Rightarrow> (Inl e, w0, [])
      | Inr content \<Rightarrow>
          replay_events dm math processor (eventsToReplay count content) initial_result w0)"

text \<open>The guard, the \<^verbatim>\<open>try\<close> block, and the \<^verbatim>\<open>finally\<close> block that clears the flag.\<close>

definition DurabilityManager_replay ::
  "'s DurabilityManager \<Rightarrow> jsmath \<Rightarrow> int \<Rightarrow> 's processor \<Rightarrow> 's world
     \<Rightarrow> (error + ReplayResult) \<times> 's world \<times> action list" where
  "DurabilityManager_replay dm math count processor w =
     (if isReplaying w then (Inl ReplayInProgress, w, [])
      else
        (case replay_try dm math count processor (w\<lparr>isReplaying := True\<rparr>) of
           (r, w1, tr) \<Rightarrow> (r, w1\<lparr>isReplaying := False\<rparr>, tr)))"

definition getEventCount :: "'s DurabilityManager \<Rightarrow> 's world \<Rightarrow> error + nat" where
  "getEventCount dm w =
     (case WALManager_read (walFileName dm) (wm w) of
        Inl e \<Rightarrow> Inl e
      | Inr content \<Rightarrow> Inr (length (filter (\<lambda>line. 0 < length (trim line)) (split_nl content))))"

definition isReplayInProgress :: "'s world \<Rightarrow> bool" where
  "isReplayInProgress w = isReplaying w"

section \<open>JSON as the client uses it\<close>

text \<open>
  \<^verbatim>\<open>JSON.stringify\<close> of an entry, after \<open>QuoteJSONString\<close> of ECMAScript: the seven
  short escapes, \<^verbatim>\<open>\uXXXX\<close> for the other control characters and for a surrogate
  that has no partner, and every other code unit as it is.
\<close>

definition hexdigit :: "nat \<Rightarrow> jschar" where
  "hexdigit n = js ''0123456789abcdef'' ! (n mod 16)"

definition unicodeEscape :: "jschar \<Rightarrow> jsstring" where
  "unicodeEscape c =
     js [CHR 0x5C, CHR ''u''] @
     [hexdigit (unat c div 4096), hexdigit (unat c div 256), hexdigit (unat c div 16), hexdigit (unat c)]"

definition is_high_surrogate :: "jschar \<Rightarrow> bool" where
  "is_high_surrogate c = (0xD800 \<le> c \<and> c \<le> 0xDBFF)"

definition is_low_surrogate :: "jschar \<Rightarrow> bool" where
  "is_low_surrogate c = (0xDC00 \<le> c \<and> c \<le> 0xDFFF)"

definition quote_unit :: "jschar \<Rightarrow> jsstring" where
  "quote_unit c =
     (if c = 0x08 then js [CHR 0x5C, CHR ''b'']
      else if c = 0x09 then js [CHR 0x5C, CHR ''t'']
      else if c = 0x0A then js [CHR 0x5C, CHR ''n'']
      else if c = 0x0C then js [CHR 0x5C, CHR ''f'']
      else if c = 0x0D then js [CHR 0x5C, CHR ''r'']
      else if c = 0x22 then js [CHR 0x5C, CHR 0x22]
      else if c = 0x5C then js [CHR 0x5C, CHR 0x5C]
      else if c < 0x20 \<or> is_high_surrogate c \<or> is_low_surrogate c then unicodeEscape c
      else [c])"

fun quote_units :: "jsstring \<Rightarrow> jsstring" where
  "quote_units [] = []"
| "quote_units [c] = quote_unit c"
| "quote_units (c # d # ds) =
     (if is_high_surrogate c \<and> is_low_surrogate d then c # d # quote_units ds
      else quote_unit c @ quote_units (d # ds))"

definition QuoteJSONString :: "jsstring \<Rightarrow> jsstring" where
  "QuoteJSONString s = js [CHR 0x22] @ quote_units s @ js [CHR 0x22]"

text \<open>The decimal digits of an integer, as \<^verbatim>\<open>JSON.stringify\<close> prints \<^verbatim>\<open>Date.now()\<close>.\<close>

fun decimal :: "nat \<Rightarrow> jsstring" where
  "decimal n =
     (if n < 10 then [js ''0123456789'' ! n]
      else decimal (n div 10) @ [js ''0123456789'' ! (n mod 10)])"

definition number_string :: "int \<Rightarrow> jsstring" where
  "number_string i = (if i < 0 then js ''-'' @ decimal (nat (- i)) else decimal (nat i))"

record WalEntry =
  entry_id :: jsstring
  entry_timestamp :: int
  entry_data :: jsstring

definition JSON_stringify :: "WalEntry \<Rightarrow> jsstring" where
  "JSON_stringify entry =
     js [CHR ''{'', CHR 0x22, CHR ''i'', CHR ''d'', CHR 0x22, CHR '':''] @ QuoteJSONString (entry_id entry) @
     js [CHR '','', CHR 0x22] @ js ''timestamp'' @ js [CHR 0x22, CHR '':''] @ number_string (entry_timestamp entry) @
     js [CHR '','', CHR 0x22] @ js ''data'' @ js [CHR 0x22, CHR '':''] @ QuoteJSONString (entry_data entry) @
     js ''}''"

text \<open>
  The values \<^verbatim>\<open>JSON.parse\<close> returns, and what a property read gives. \<^verbatim>\<open>JSON.parse\<close>
  itself is a parameter of the client's functions: \<open>None\<close> is its \<^verbatim>\<open>SyntaxError\<close>.
\<close>

datatype json =
    JNull
  | JBool bool
  | JNumber real
  | JString jsstring
  | JArray "json list"
  | JObject "(jsstring \<times> json) list"

datatype jsval = Undefined | Val json

text \<open>\<^verbatim>\<open>entry.data\<close>: a \<^verbatim>\<open>TypeError\<close> on \<^verbatim>\<open>null\<close>, \<^verbatim>\<open>undefined\<close> where there is no such property.\<close>

fun get_data :: "json \<Rightarrow> error + jsval" where
  "get_data JNull = Inl TypeError"
| "get_data (JObject kvs) =
     Inr (case map_of kvs (js ''data'') of None \<Rightarrow> Undefined | Some v \<Rightarrow> Val v)"
| "get_data v = Inr Undefined"

section \<open>DurableWal.ts: the client\<close>

type_synonym 's client_processor = "jsval \<Rightarrow> 's world \<Rightarrow> error option \<times> 's world"

text \<open>
  \<open>uuid\<close> and \<open>now\<close> are the results of \<^verbatim>\<open>randomUUID()\<close> and \<^verbatim>\<open>Date.now()\<close>.
\<close>

definition DurableWal_append ::
  "'s DurabilityManager \<Rightarrow> jsstring \<Rightarrow> int \<Rightarrow> jsstring \<Rightarrow> 's world \<Rightarrow> (error + jsstring) \<times> 's world" where
  "DurableWal_append dm uuid now content w =
     (if content = [] \<or> length (trim content) = 0 then (Inl EmptyContent, w)
      else
        let entry = \<lparr>entry_id = uuid, entry_timestamp = now, entry_data = content\<rparr>;
            serialized = JSON_stringify entry
        in (case DurabilityManager_append dm serialized w of
              (Inl e, w') \<Rightarrow> (Inl e, w')
            | (Inr u, w') \<Rightarrow> (Inr (entry_id entry), w')))"

text \<open>
  The wrapper \<^verbatim>\<open>replay\<close> builds around the caller's processor. Its \<^verbatim>\<open>try\<close> block holds
  \<^verbatim>\<open>JSON.parse\<close>, the read of \<^verbatim>\<open>entry.data\<close> and the call of the processor; the
  \<^verbatim>\<open>catch\<close> block calls the processor with the line.
\<close>

definition wrappedProcessor ::
  "(jsstring \<Rightarrow> json option) \<Rightarrow> 's client_processor \<Rightarrow> 's processor" where
  "wrappedProcessor JSON_parse processor serialized w =
     (case JSON_parse serialized of
        None \<Rightarrow> processor (Val (JString serialized)) w
      | Some entry \<Rightarrow>
          (case get_data entry of
             Inl e \<Rightarrow> processor (Val (JString serialized)) w
           | Inr d \<Rightarrow>
               (case processor d w of
                  (None, w') \<Rightarrow> (None, w')
                | (Some e, w') \<Rightarrow> processor (Val (JString serialized)) w')))"

definition DurableWal_replay ::
  "'s DurabilityManager \<Rightarrow> jsmath \<Rightarrow> (jsstring \<Rightarrow> json option) \<Rightarrow> int
     \<Rightarrow> 's client_processor option \<Rightarrow> 's world \<Rightarrow> (error + unit) \<times> 's world \<times> action list" where
  "DurableWal_replay dm math JSON_parse eventNum processor w =
     (if eventNum < 0 then (Inl NegativeEventNumber, w, [])
      else
        (case processor of
           None \<Rightarrow> (Inl ProcessorRequired, w, [])
         | Some p \<Rightarrow>
             (case DurabilityManager_replay dm math eventNum (wrappedProcessor JSON_parse p) w of
                (Inl e, w', tr) \<Rightarrow> (Inl e, w', tr)
              | (Inr result, w', tr) \<Rightarrow>
                  if \<not> success result
                  then (Inl (ReplayFailed (failedCount result)
                               (processedCount result + failedCount result)), w', tr)
                  else (Inr (), w', tr))))"

text \<open>The lines \<^verbatim>\<open>inspect\<close> selects from the content it read, and how it decodes one.\<close>

definition lastN :: "int \<Rightarrow> jsstring \<Rightarrow> jsstring list" where
  "lastN numberOfEvents content =
     (let lines = filter (\<lambda>line. 0 < length (trim line)) (split_nl content)
      in if numberOfEvents \<le> 0 then [] else array_slice (- numberOfEvents) lines)"

definition inspect_decode :: "(jsstring \<Rightarrow> json option) \<Rightarrow> jsstring \<Rightarrow> jsval" where
  "inspect_decode JSON_parse line =
     (case JSON_parse line of
        None \<Rightarrow> Val (JString line)
      | Some entry \<Rightarrow> (case get_data entry of Inl e \<Rightarrow> Val (JString line) | Inr d \<Rightarrow> d))"

definition inspect ::
  "'s DurabilityManager \<Rightarrow> (jsstring \<Rightarrow> json option) \<Rightarrow> int \<Rightarrow> 's world \<Rightarrow> error + jsval list" where
  "inspect dm JSON_parse numberOfEvents w =
     (if numberOfEvents < 0 then Inl NegativeNumberOfEvents
      else
        (case DurabilityManager_read dm w of
           Inl e \<Rightarrow> Inl e
         | Inr content \<Rightarrow> Inr (map (inspect_decode JSON_parse) (lastN numberOfEvents content))))"

definition getEntryCount :: "'s DurabilityManager \<Rightarrow> 's world \<Rightarrow> error + nat" where
  "getEntryCount dm w = getEventCount dm w"

section \<open>Concrete states\<close>

text \<open>
  A fresh registry on an empty disk, one whose disk refuses every \<^verbatim>\<open>writeFile\<close>, and a
  handle. The only paths joined below are the directory \<^verbatim>\<open>wal_logs\<close> and the plain name
  \<^verbatim>\<open>test.wal\<close>, which \<^verbatim>\<open>path.join\<close> joins with one separator.
\<close>

definition example_fs :: fsys where
  "example_fs =
     \<lparr>dirs = {}, files = Map.empty, faulty = (\<lambda>op p. False),
      join = (\<lambda>d f. d @ js ''/'' @ f)\<rparr>"

definition example_manager :: manager where
  "example_manager =
     \<lparr>baseDir = js ''wal_logs'', logs = Map.empty, registering = {}, fs = example_fs\<rparr>"

definition readonly_manager :: manager where
  "readonly_manager = example_manager\<lparr>fs := example_fs\<lparr>faulty := (\<lambda>op p. op = WriteFile)\<rparr>\<rparr>"

definition example_wal :: WAL where
  "example_wal = \<lparr>fileName = js ''test.wal''\<rparr>"

text \<open>
  The handle named \<^verbatim>\<open>.\<close>, and a fresh registry on a platform whose \<^verbatim>\<open>path.join\<close>
  joins that name to the base directory itself.
\<close>

definition dot_wal :: WAL where
  "dot_wal = \<lparr>fileName = js ''.''\<rparr>"

definition dot_manager :: manager where
  "dot_manager = example_manager
     \<lparr>fs := example_fs\<lparr>join := (\<lambda>d f. if f = js ''.'' then d else d @ js ''/'' @ f)\<rparr>\<rparr>"

text \<open>A registered log holding the two lines \<^verbatim>\<open>a\<close> and \<^verbatim>\<open>b\<close>, and an engine with the default retries.\<close>

definition example_content :: jsstring where
  "example_content = js ''a'' @ [LF] @ js ''b'' @ [LF]"

definition example_registered :: manager where
  "example_registered = example_manager
     \<lparr>logs := [js ''test.wal'' \<mapsto> example_wal],
      fs := example_fs\<lparr>dirs := {js ''wal_logs''},
              files := [js ''wal_logs/test.wal'' \<mapsto> example_content]\<rparr>\<rparr>"

definition example_world :: "nat world" where
  "example_world = \<lparr>wm = example_registered, isReplaying = False, draws = 0, caller = 0\<rparr>"

definition example_dm :: "nat DurabilityManager" where
  "example_dm = DurabilityManager_new
     \<lparr>config_walFileName = js ''test.wal'', config_retryConfig = None,
      config_onEventProcessed = None\<rparr>"

text \<open>The same world with the log registered but its file missing from the disk.\<close>

definition missing_file_world :: "nat world" where
  "missing_file_world = example_world\<lparr>wm := example_registered\<lparr>fs := example_fs\<rparr>\<rparr>"

text \<open>A payload with a newline in it, and a registered log whose last line is not terminated.\<close>

definition example_payload :: jsstring where
  "example_payload = js ''x'' @ [LF] @ js ''y''"

definition unterminated_world :: "nat world" where
  "unterminated_world = example_world
     \<lparr>wm := example_registered
        \<lparr>fs := example_fs\<lparr>dirs := {js ''wal_logs''},
                files := [js ''wal_logs/test.wal'' \<mapsto> js ''abc'']\<rparr>\<rparr>\<rparr>"

text \<open>
  An envelope line with payload \<^verbatim>\<open>x\<close>, the value of \<^verbatim>\<open>JSON.parse\<close> on it (no other
  line is parsed below), and a processor that counts its invocations and throws on \<^verbatim>\<open>x\<close> only.
\<close>

definition example_line :: jsstring where
  "example_line = JSON_stringify \<lparr>entry_id = js ''1'', entry_timestamp = 0, entry_data = js ''x''\<rparr>"

definition example_parse :: "jsstring \<Rightarrow> json option" where
  "example_parse =
     (\<lambda>s. None)(example_line \<mapsto>
        JObject [(js ''id'', JString (js ''1'')), (js ''timestamp'', JNumber 0),
                 (js ''data'', JString (js ''x''))])"

definition picky_processor :: "nat client_processor" where
  "picky_processor v w =
     (if v = Val (JString (js ''x'')) then (Some (Thrown (js ''boom'')), w\<lparr>caller := caller w + 1\<rparr>)
      else (None, w\<lparr>caller := caller w + 1\<rparr>))"

text \<open>A registered log that holds this one envelope line.\<close>

definition envelope_world :: "nat world" where
  "envelope_world = example_world
     \<lparr>wm := example_registered
        \<lparr>fs := example_fs\<lparr>dirs := {js ''wal_logs''},
                files := [js ''wal_logs/test.wal'' \<mapsto> example_line @ [LF]]\<rparr>\<rparr>\<rparr>"

text \<open>A processor that counts its invocations in the caller's state and always throws.\<close>

definition failing_processor :: "nat processor" where
  "failing_processor event w = (Some (Thrown (js ''boom'')), w\<lparr>caller := caller w + 1\<rparr>)"

text \<open>
  A runtime whose \<^verbatim>\<open>Math.random\<close> always returns one half. On the numbers of the default
  configuration with this draw every operation of the delay is exact in doubles.
\<close>

definition example_math :: jsmath where
  "example_math =
     \<lparr>random_at = (\<lambda>i. 1 / 2), mul64 = (\<lambda>x y. x * y), add64 = (\<lambda>x y. x + y),
      sub64 = (\<lambda>x y. x - y), pow64 = (\<lambda>x n. x ^ n)\<rparr>"

section \<open>Reading a trace\<close>


section \<open>The window in the specification's words\<close>

text \<open>The non-blank lines of a content, and the last \<open>min count available\<close> of a list, oldest first.\<close>

definition non_blank_lines :: "jsstring \<Rightarrow> jsstring list" where
  "non_blank_lines content = filter (\<lambda>line. \<not> list_all is_ws line) (split_nl content)"

definition spec_window :: "int \<Rightarrow> 'a list \<Rightarrow> 'a list" where
  "spec_window count xs =
     (if count \<le> 0 then [] else rev (take (min (nat count) (length xs)) (rev xs)))"

section \<open>Lines, windows and counts\<close>

lemma split_nl_not_Nil: "split_nl s \<noteq> []"
  by (induction s) (auto split: list.splits)

lemma dropWhile_all_iff: "(\<forall>x\<in>set (dropWhile P s). P x) \<longleftrightarrow> (\<forall>x\<in>set s. P x)"
proof
  assume a: "\<forall>x\<in>set (dropWhile P s). P x"
  have "dropWhile P s = []"
  proof (rule ccontr)
    assume n: "dropWhile P s \<noteq> []"
    then have "\<not> P (hd (dropWhile P s))" by (rule hd_dropWhile)
    moreover have "hd (dropWhile P s) \<in> set (dropWhile P s)" using n by simp
    ultimately show False using a by blast
  qed
  then show "\<forall>x\<in>set s. P x" by (simp add: dropWhile_eq_Nil_conv)
next
  assume "\<forall>x\<in>set s. P x"
  then show "\<forall>x\<in>set (dropWhile P s). P x" by (blast dest: set_dropWhileD)
qed

text \<open>A line is blank for the program exactly when all its code units are white space.\<close>

lemma trim_Nil_iff: "trim s = [] \<longleftrightarrow> list_all is_ws s"
  by (simp add: trim_def dropWhile_eq_Nil_conv dropWhile_all_iff list_all_iff)

section \<open>The handle's builder\<close>

text \<open>
  C8. The builder refuses exactly a missing and an empty name. Every non-empty string,
  a string of white space included, builds a handle whose \<open>fileName\<close> is that string,
  while the client's \<open>append\<close> refuses the same white-space string as content.
\<close>

theorem builder_rejects_only_missing_or_empty_name:
  assumes "s \<noteq> []"
  shows "WALBuilder_build (WALBuilder_file s WAL_builder) = Inr \<lparr>fileName = s\<rparr>
    \<and> ((\<exists>e. WALBuilder_build b = Inl e) \<longleftrightarrow> (builder_fileName b = None \<or> builder_fileName b = Some []))
    \<and> (list_all is_ws s \<longrightarrow> DurableWal_append dm uuid now s w = (Inl EmptyContent, w))"
  using assms
  by (auto simp: WALBuilder_build_def WALBuilder_file_def WAL_builder_def WAL_new_def
      DurableWal_append_def trim_Nil_iff split: option.splits)

theorem builder_rejects_only_missing_or_empty_name_witness:
  "js ''  '' \<noteq> []
   \<and> WALBuilder_build (WALBuilder_file (js ''  '') WAL_builder) = Inr \<lparr>fileName = js ''  ''\<rparr>
   \<and> (\<exists>e. WALBuilder_build WAL_builder = Inl e)
   \<and> DurableWal_append example_dm (js ''id-1'') 0 (js ''  '') example_world =
       (Inl EmptyContent, example_world)"
  using builder_rejects_only_missing_or_empty_name
    [of "js ''  ''" WAL_builder example_dm "js ''id-1''" 0 example_world]
  by (simp add: js_def is_ws_def WAL_builder_def)

section \<open>Registration\<close>

lemma register_registered:
  "fileName wal \<notin> registering m \<Longrightarrow> logs m (fileName wal) \<noteq> None \<Longrightarrow> register wal m = (Inr (), m)"
  by (simp add: register_def)

lemma register_registering:
  "fileName wal \<in> registering m \<Longrightarrow> register wal m = (Inl (AlreadyRegistering (fileName wal)), m)"
  by (simp add: register_def)

lemma register_success:
  assumes "fileName wal \<notin> registering m" "logs m (fileName wal) = None"
    and "register wal m = (Inr (), m')"
  shows "logs m' = (logs m)(fileName wal \<mapsto> wal) \<and> registering m' = registering m
    \<and> baseDir m' = baseDir m
    \<and> files (fs m') =
        (if join (fs m) (baseDir m) (fileName wal) = baseDir m
                \<or> fs_access (join (fs m) (baseDir m) (fileName wal)) (fs m)
             then files (fs m)
         else (files (fs m))(join (fs m) (baseDir m) (fileName wal) \<mapsto> []))"
  using assms
  by (auto simp: register_def ensureBaseDir_def fs_mkdir_def fs_access_def fs_writeFile_def
      register_finally_def  Let_def split: if_splits prod.splits option.splits)

lemma register_suspended_registering:
  "m1 \<in> set (register_suspended wal m) \<Longrightarrow> fileName wal \<in> registering m1"
  by (auto simp: register_suspended_def ensureBaseDir_def fs_mkdir_def Let_def
      split: if_splits prod.splits option.splits)

lemma register_suspended_recorded:
  "m1 \<in> set (tl (register_suspended wal m)) \<Longrightarrow>
   logs m1 (fileName wal) = Some wal \<and> files (fs m1) = files (fs m)"
  by (auto simp: register_suspended_def ensureBaseDir_def fs_mkdir_def Let_def
      split: if_splits prod.splits option.splits)

text \<open>
  C7. \<open>register\<close> is idempotent. For a name that is registered the call returns at once
  and leaves registry and disk as they were. For a name that is not, a call that
  succeeds records the name, creates the empty backing file only where nothing exists at
  its path (the base directory, which exists by then, counted) and changes no other file,
  so a second call changes nothing. This holds however \<^verbatim>\<open>path.join\<close> joins the path. While the first
  registration of a name is suspended, at any of its awaits, a second registration of that
  name fails with \<open>AlreadyRegistering\<close>. The name is recorded before the file is
  looked for: at the awaits of \<^verbatim>\<open>access\<close> and \<^verbatim>\<open>writeFile\<close> it is already in the
  registry and the files are still those the call found.
\<close>

theorem register_idempotent:
  "(fileName wal \<notin> registering m \<and> logs m (fileName wal) \<noteq> None \<longrightarrow> register wal m = (Inr (), m))
   \<and> (fileName wal \<notin> registering m \<and> logs m (fileName wal) = None \<and> register wal m = (Inr (), m') \<longrightarrow>
        logs m' = (logs m)(fileName wal \<mapsto> wal) \<and> registering m' = registering m
        \<and> files (fs m') =
            (if join (fs m) (baseDir m) (fileName wal) = baseDir m
                \<or> fs_access (join (fs m) (baseDir m) (fileName wal)) (fs m)
             then files (fs m)
             else (files (fs m))(join (fs m) (baseDir m) (fileName wal) \<mapsto> []))
        \<and> register wal m' = (Inr (), m'))
   \<and> (fileName wal \<in> registering m \<longrightarrow>
        register wal m = (Inl (AlreadyRegistering (fileName wal)), m))
   \<and> (\<forall>m1 \<in> set (register_suspended wal m).
        register wal m1 = (Inl (AlreadyRegistering (fileName wal)), m1))
   \<and> (\<forall>m1 \<in> set (tl (register_suspended wal m)).
        logs m1 (fileName wal) = Some wal \<and> files (fs m1) = files (fs m))"
proof (intro conjI impI ballI)
  assume "fileName wal \<notin> registering m \<and> logs m (fileName wal) \<noteq> None"
  then show "register wal m = (Inr (), m)" by (simp add: register_registered)
next
  assume a: "fileName wal \<notin> registering m \<and> logs m (fileName wal) = None \<and> register wal m = (Inr (), m')"
  then have s: "logs m' = (logs m)(fileName wal \<mapsto> wal) \<and> registering m' = registering m
    \<and> baseDir m' = baseDir m
    \<and> files (fs m') =
        (if join (fs m) (baseDir m) (fileName wal) = baseDir m
                \<or> fs_access (join (fs m) (baseDir m) (fileName wal)) (fs m)
             then files (fs m)
         else (files (fs m))(join (fs m) (baseDir m) (fileName wal) \<mapsto> []))"
    using register_success [of wal m m'] by blast
  from s show "logs m' = (logs m)(fileName wal \<mapsto> wal)" by blast
  from s show "registering m' = registering m" by blast
  from s show "files (fs m') =
        (if join (fs m) (baseDir m) (fileName wal) = baseDir m
                \<or> fs_access (join (fs m) (baseDir m) (fileName wal)) (fs m)
             then files (fs m)
         else (files (fs m))(join (fs m) (baseDir m) (fileName wal) \<mapsto> []))" by blast
  from s a show "register wal m' = (Inr (), m')" by (simp add: register_registered)
next
  assume "fileName wal \<in> registering m"
  then show "register wal m = (Inl (AlreadyRegistering (fileName wal)), m)"
    by (rule register_registering)
next
  fix m1 assume "m1 \<in> set (register_suspended wal m)"
  then show "register wal m1 = (Inl (AlreadyRegistering (fileName wal)), m1)"
    by (simp add: register_suspended_registering register_registering)
next
  fix m1 assume a: "m1 \<in> set (tl (register_suspended wal m))"
  then show "logs m1 (fileName wal) = Some wal"
    by (rule register_suspended_recorded [THEN conjunct1])
  from a show "files (fs m1) = files (fs m)"
    by (rule register_suspended_recorded [THEN conjunct2])
qed

theorem register_idempotent_witness:
  "register example_wal example_manager =
     (Inr (), example_manager\<lparr>logs := [js ''test.wal'' \<mapsto> example_wal],
        fs := example_fs\<lparr>dirs := {js ''wal_logs''}, files := [js ''wal_logs/test.wal'' \<mapsto> []]\<rparr>\<rparr>)
   \<and> register example_wal (snd (register example_wal example_manager)) =
       (Inr (), snd (register example_wal example_manager))
   \<and> list_all (\<lambda>m1. register example_wal m1 = (Inl (AlreadyRegistering (js ''test.wal'')), m1))
       (register_suspended example_wal example_manager)
   \<and> length (register_suspended example_wal example_manager) = 2
   \<and> list_all (\<lambda>m1. logs m1 (js ''test.wal'') = Some example_wal \<and> files (fs m1) = Map.empty)
       (tl (register_suspended example_wal example_manager))
   \<and> fst (register dot_wal dot_manager) = Inr ()
   \<and> logs (snd (register dot_wal dot_manager)) (js ''.'') = Some dot_wal
   \<and> files (fs (snd (register dot_wal dot_manager))) = Map.empty
   \<and> register dot_wal (snd (register dot_wal dot_manager)) =
       (Inr (), snd (register dot_wal dot_manager))"
proof -
  have d: "register dot_wal dot_manager =
      (Inr (), dot_manager\<lparr>logs := [js ''.'' \<mapsto> dot_wal],
         fs := (fs dot_manager)\<lparr>dirs := {js ''wal_logs''}\<rparr>\<rparr>)"
    by (simp add: register_def ensureBaseDir_def fs_mkdir_def fs_access_def fs_writeFile_def
        register_finally_def js_def Let_def dot_wal_def dot_manager_def example_manager_def
        example_fs_def)
  have u: "fileName dot_wal \<notin> registering dot_manager \<and> logs dot_manager (fileName dot_wal) = None"
    by (simp add: dot_wal_def dot_manager_def example_manager_def)
  have h: "register dot_wal dot_manager = (Inr (), snd (register dot_wal dot_manager))"
    by (simp add: d)
  from register_idempotent [of dot_wal dot_manager "snd (register dot_wal dot_manager)"] u h
  have "files (fs (snd (register dot_wal dot_manager))) =
      (if join (fs dot_manager) (baseDir dot_manager) (fileName dot_wal) = baseDir dot_manager
          \<or> fs_access (join (fs dot_manager) (baseDir dot_manager) (fileName dot_wal)) (fs dot_manager)
       then files (fs dot_manager)
       else (files (fs dot_manager))
              (join (fs dot_manager) (baseDir dot_manager) (fileName dot_wal) \<mapsto> []))
    \<and> register dot_wal (snd (register dot_wal dot_manager)) =
        (Inr (), snd (register dot_wal dot_manager))"
    by blast
  then have 1: "files (fs (snd (register dot_wal dot_manager))) = Map.empty
    \<and> register dot_wal (snd (register dot_wal dot_manager)) =
        (Inr (), snd (register dot_wal dot_manager))"
    by (simp add: dot_wal_def dot_manager_def example_manager_def example_fs_def)
  have 2: "fst (register dot_wal dot_manager) = Inr ()
    \<and> logs (snd (register dot_wal dot_manager)) (js ''.'') = Some dot_wal"
    by (simp add: d)
  have 3: "register example_wal example_manager =
     (Inr (), example_manager\<lparr>logs := [js ''test.wal'' \<mapsto> example_wal],
        fs := example_fs\<lparr>dirs := {js ''wal_logs''}, files := [js ''wal_logs/test.wal'' \<mapsto> []]\<rparr>\<rparr>)
   \<and> register example_wal (snd (register example_wal example_manager)) =
       (Inr (), snd (register example_wal example_manager))
   \<and> list_all (\<lambda>m1. register example_wal m1 = (Inl (AlreadyRegistering (js ''test.wal'')), m1))
       (register_suspended example_wal example_manager)
   \<and> length (register_suspended example_wal example_manager) = 2
   \<and> list_all (\<lambda>m1. logs m1 (js ''test.wal'') = Some example_wal \<and> files (fs m1) = Map.empty)
       (tl (register_suspended example_wal example_manager))"
    using register_idempotent [of example_wal example_manager "snd (register example_wal example_manager)"]
    by (simp add: register_def ensureBaseDir_def fs_mkdir_def fs_access_def fs_writeFile_def
        register_finally_def register_suspended_def js_def Let_def example_wal_def
        example_manager_def example_fs_def list_all_iff)
  from 1 2 3 show ?thesis by blast
qed

text \<open>
  On a fresh registry the call that awaits \<^verbatim>\<open>access\<close> has already recorded the name
  although no file exists; and when \<^verbatim>\<open>writeFile\<close> then fails, the call ends with the
  name recorded and no file created.
\<close>

theorem register_records_name_before_file:
  "logs (register_suspended example_wal example_manager ! 1) (js ''test.wal'') = Some example_wal
   \<and> files (fs (register_suspended example_wal example_manager ! 1)) (js ''wal_logs/test.wal'') = None
   \<and> fst (register example_wal readonly_manager) = Inl (IOError WriteFile (js ''wal_logs/test.wal''))
   \<and> logs (snd (register example_wal readonly_manager)) (js ''test.wal'') = Some example_wal
   \<and> files (fs (snd (register example_wal readonly_manager))) (js ''wal_logs/test.wal'') = None"
  by (simp add: register_def ensureBaseDir_def fs_mkdir_def fs_access_def fs_writeFile_def
      register_finally_def register_suspended_def  js_def Let_def example_wal_def
      readonly_manager_def example_manager_def example_fs_def)



section \<open>The retry loop\<close>

declare retry_loop.simps [simp del]


lemma retry_loop_exhausted:
  "\<not> int attempt \<le> maxRetries cfg \<Longrightarrow>
   retry_loop cfg math event processor attempt lastError w =
     (False, w, (case lastError of None \<Rightarrow> [] | Some err \<Rightarrow> [Diagnostic event attempt err]))"
  by (subst retry_loop.simps) simp




lemma replay_events_counts:
  "replay_events dm math processor evs res w = (Inr res', w', tr) \<Longrightarrow>
   processedCount res' + failedCount res' = processedCount res + failedCount res + length evs
   \<and> failedCount res \<le> failedCount res'
   \<and> (success res' \<longleftrightarrow> success res \<and> failedCount res' = failedCount res)"
proof (induction evs arbitrary: res w res' w' tr)
  case Nil
  then show ?case by simp
next
  case (Cons event rest)
  obtain ok w1 tr1 where a: "processEventWithRetry dm math event processor w = (ok, w1, tr1)"
    by (cases "processEventWithRetry dm math event processor w") auto
  obtain r w2 tr2 where b: "notify dm event ok w1 = (r, w2, tr2)"
    by (cases "notify dm event ok w1") auto
  define res1 where "res1 = (if ok then res\<lparr>processedCount := processedCount res + 1\<rparr>
      else res\<lparr>failedCount := failedCount res + 1, success := False\<rparr>)"
  from Cons.prems a b have rn: "r = None"
    by (cases r) (auto simp: Let_def)
  obtain r3 w3 tr3 where c: "replay_events dm math processor rest res1 w2 = (r3, w3, tr3)"
    by (cases "replay_events dm math processor rest res1 w2") auto
  from Cons.prems a b rn c have "r3 = Inr res'"
    by (auto simp: Let_def res1_def split: if_splits)
  with c have "replay_events dm math processor rest res1 w2 = (Inr res', w3, tr3)" by simp
  from Cons.IH[OF this] show ?case
    by (auto simp: res1_def split: if_splits)
qed






lemma replay_Inr:
  assumes "DurabilityManager_replay dm math count processor w = (Inr res, w', tr)"
  shows "\<not> isReplaying w \<and> (\<exists>content w1. WALManager_read (walFileName dm) (wm w) = Inr content
    \<and> replay_events dm math processor (eventsToReplay count content) initial_result
          (w\<lparr>isReplaying := True\<rparr>) = (Inr res, w1, tr)
    \<and> w' = w1\<lparr>isReplaying := False\<rparr>)"
  using assms
  by (auto simp: DurabilityManager_replay_def replay_try_def Let_def
      split: if_splits sum.splits prod.splits)

lemma calculateBackoffDelay_draws:
  "snd (calculateBackoffDelay cfg math a w) = w\<lparr>draws := draws w + 1\<rparr>"
  by (simp add: calculateBackoffDelay_def Math_random_def Let_def)

lemma example_read:
  "WALManager_read (js ''test.wal'') example_registered = Inr example_content"
  by (simp add: WALManager_read_def example_registered_def example_manager_def example_fs_def
      example_wal_def fs_readFile_def  js_def)

lemma example_events:
  "eventsToReplay 2 example_content = [js ''a'', js ''b'']"
  by (simp add: example_content_def eventsToReplay_def js_def LF_def trim_def is_ws_def array_slice_def)

lemma example_retry:
  "processEventWithRetry example_dm example_math e failing_processor w =
     (False, w\<lparr>draws := draws w + 3, caller := caller w + 4\<rparr>,
      [Invoke e, Sleep 100, Invoke e, Sleep 200, Invoke e, Sleep 400, Invoke e,
       Diagnostic e 4 (Thrown (js ''boom''))])"
  by (simp add: processEventWithRetry_def example_dm_def DurabilityManager_new_def
      DEFAULT_RETRY_CONFIG_def retry_loop.simps failing_processor_def calculateBackoffDelay_def
      Math_random_def example_math_def Let_def)

lemma example_replay:
  "DurabilityManager_replay example_dm example_math 2 failing_processor example_world =
     (Inr \<lparr>success = False, processedCount = 0, failedCount = 2, errors = []\<rparr>,
      example_world\<lparr>draws := 6, caller := 8\<rparr>,
      [Invoke (js ''a''), Sleep 100, Invoke (js ''a''), Sleep 200, Invoke (js ''a''), Sleep 400,
       Invoke (js ''a''), Diagnostic (js ''a'') 4 (Thrown (js ''boom'')),
       Invoke (js ''b''), Sleep 100, Invoke (js ''b''), Sleep 200, Invoke (js ''b''), Sleep 400,
       Invoke (js ''b''), Diagnostic (js ''b'') 4 (Thrown (js ''boom''))])"
proof -
  have n: "notify example_dm e ok w = (None, w, [])" for e ok w
    by (simp add: notify_def example_dm_def DurabilityManager_new_def)
  have w: "walFileName example_dm = js ''test.wal''"
    by (simp add: example_dm_def DurabilityManager_new_def)
  show ?thesis
    by (simp add: DurabilityManager_replay_def replay_try_def w example_world_def example_read example_events
        example_retry n initial_result_def Let_def)
qed


section \<open>Replay: retries, counts and the window\<close>


lemma example_dm_fields:
  "walFileName example_dm = js ''test.wal''" "retryConfig example_dm = DEFAULT_RETRY_CONFIG"
  "onEventProcessed example_dm = None"
  by (simp_all add: example_dm_def DurabilityManager_new_def)

lemma example_world_fields:
  "wm example_world = example_registered" "isReplaying example_world = False"
  by (simp_all add: example_world_def)


text \<open>
  C4. A call of \<open>replay\<close> that returns a result read the log, and its result counts
  every selected record once, as processed or as failed; \<open>success\<close> holds exactly when
  no record failed.
\<close>

theorem replay_result_counts:
  assumes "DurabilityManager_replay dm math count processor w = (Inr res, w', tr)"
  shows "\<exists>content. WALManager_read (walFileName dm) (wm w) = Inr content
    \<and> processedCount res + failedCount res = length (eventsToReplay count content)
    \<and> (success res \<longleftrightarrow> failedCount res = 0)"
proof -
  from replay_Inr[OF assms] obtain content w1 where
    c: "WALManager_read (walFileName dm) (wm w) = Inr content" and
    ev: "replay_events dm math processor (eventsToReplay count content) initial_result
          (w\<lparr>isReplaying := True\<rparr>) = (Inr res, w1, tr)" by blast
  from replay_events_counts[OF ev]
  have "processedCount res + failedCount res = length (eventsToReplay count content)
    \<and> (success res \<longleftrightarrow> failedCount res = 0)"
    by (auto simp: initial_result_def)
  with c show ?thesis by (intro exI[of _ content]) simp
qed

theorem replay_result_counts_witness:
  "processedCount (projr (fst (DurabilityManager_replay example_dm example_math 2 failing_processor example_world)))
     + failedCount (projr (fst (DurabilityManager_replay example_dm example_math 2 failing_processor example_world)))
     = 2
   \<and> length (eventsToReplay 2 example_content) = 2
   \<and> \<not> success (projr (fst (DurabilityManager_replay example_dm example_math 2 failing_processor example_world)))
   \<and> WALManager_read (walFileName example_dm) (wm example_world) = Inr example_content"
proof -
  let ?r = "DurabilityManager_replay example_dm example_math 2 failing_processor example_world"
  have r: "?r = (Inr (projr (fst ?r)), fst (snd ?r), snd (snd ?r))"
    by (simp add: example_replay)
  have c: "WALManager_read (walFileName example_dm) (wm example_world) = Inr example_content"
    by (simp add: example_dm_fields example_world_fields example_read)
  from replay_result_counts [OF r] c
  have "processedCount (projr (fst ?r)) + failedCount (projr (fst ?r)) = length (eventsToReplay 2 example_content)
    \<and> (success (projr (fst ?r)) \<longleftrightarrow> failedCount (projr (fst ?r)) = 0)"
    by simp
  moreover have "failedCount (projr (fst ?r)) = 2" by (simp add: example_replay)
  ultimately show ?thesis using c by (simp add: example_events)
qed

section \<open>The single-flight guard\<close>

lemma retry_loop_keeps_flag:
  assumes "\<forall>e w. isReplaying (snd (processor e w)) = isReplaying w"
    and "retry_loop cfg math event processor attempt lastError w = (ok, w', tr)"
  shows "isReplaying w' = isReplaying w"
  using assms
proof (induction cfg math event processor attempt lastError w arbitrary: ok w' tr rule: retry_loop.induct)
  case (1 cfg math event processor attempt lastError w)
  show ?case
  proof (cases "int attempt \<le> maxRetries cfg")
    case False
    with "1.prems"(2) show ?thesis by (simp add: retry_loop_exhausted)
  next
    case True
    obtain r0 w1 where p0: "processor event w = (r0, w1)"
      by (cases "processor event w")
    have w1: "isReplaying w1 = isReplaying w"
      using "1.prems"(1) p0 by (metis snd_conv)
    show ?thesis
    proof (cases r0)
      case None
      with "1.prems"(2) True p0 have "w' = w1"
        by (subst (asm) retry_loop.simps) simp
      with w1 show ?thesis by simp
    next
      case (Some err)
      with p0 have p: "processor event w = (Some err, w1)" by simp
      show ?thesis
      proof (cases "int attempt < maxRetries cfg")
        case lt: True
        obtain delay w2 where d: "calculateBackoffDelay cfg math attempt w1 = (delay, w2)"
          by (cases "calculateBackoffDelay cfg math attempt w1")
        have w2: "isReplaying w2 = isReplaying w1"
          using calculateBackoffDelay_draws[of cfg math attempt w1] d by simp
        obtain ok2 w3 tr2 where r: "retry_loop cfg math event processor (attempt + 1) (Some err) w2 = (ok2, w3, tr2)"
          by (cases "retry_loop cfg math event processor (attempt + 1) (Some err) w2") auto
        have "isReplaying w3 = isReplaying w2"
          using "1.IH"(1)[OF True p[symmetric] refl lt d[symmetric] "1.prems"(1) r] .
        moreover have "w' = w3"
          using "1.prems"(2) True lt p d r by (subst (asm) retry_loop.simps) simp
        ultimately show ?thesis using w1 w2 by simp
      next
        case ge: False
        obtain ok2 w3 tr2 where r: "retry_loop cfg math event processor (attempt + 1) (Some err) w1 = (ok2, w3, tr2)"
          by (cases "retry_loop cfg math event processor (attempt + 1) (Some err) w1") auto
        have "isReplaying w3 = isReplaying w1"
          using "1.IH"(2)[OF True p[symmetric] refl ge "1.prems"(1) r] .
        moreover have "w' = w3"
          using "1.prems"(2) True ge p r by (subst (asm) retry_loop.simps) simp
        ultimately show ?thesis using w1 by simp
      qed
    qed
  qed
qed

lemma notify_keeps_flag:
  assumes "\<forall>f e ok w. onEventProcessed dm = Some f \<longrightarrow> isReplaying (snd (f e ok w)) = isReplaying w"
    and "notify dm event ok w = (r, w', tr)"
  shows "isReplaying w' = isReplaying w"
proof (cases "onEventProcessed dm")
  case None
  with assms(2) show ?thesis by (simp add: notify_def)
next
  case (Some f)
  obtain r0 w0 where f: "f event ok w = (r0, w0)" by (cases "f event ok w")
  with assms(2) Some have "w' = w0" by (simp add: notify_def)
  moreover have "isReplaying w0 = isReplaying w"
    using assms(1) Some f by (metis snd_conv)
  ultimately show ?thesis by simp
qed

lemma replay_events_keeps_flag:
  assumes "\<forall>e w. isReplaying (snd (processor e w)) = isReplaying w"
    and "\<forall>f e ok w. onEventProcessed dm = Some f \<longrightarrow> isReplaying (snd (f e ok w)) = isReplaying w"
  shows "isReplaying (fst (snd (replay_events dm math processor evs res w))) = isReplaying w"
proof (induction evs arbitrary: res w)
  case Nil
  show ?case by simp
next
  case (Cons event rest)
  obtain ok w1 tr1 where a: "processEventWithRetry dm math event processor w = (ok, w1, tr1)"
    by (cases "processEventWithRetry dm math event processor w") auto
  then have w1: "isReplaying w1 = isReplaying w"
    using retry_loop_keeps_flag[OF assms(1)] by (simp add: processEventWithRetry_def)
  obtain r w2 tr2 where b: "notify dm event ok w1 = (r, w2, tr2)"
    by (cases "notify dm event ok w1") auto
  have w2: "isReplaying w2 = isReplaying w1"
    using notify_keeps_flag[OF assms(2) b] .
  show ?case
  proof (cases r)
    case (Some e)
    with a b w1 w2 show ?thesis by (simp add: Let_def)
  next
    case None
    define res1 where "res1 = (if ok then res\<lparr>processedCount := processedCount res + 1\<rparr>
      else res\<lparr>failedCount := failedCount res + 1, success := False\<rparr>)"
    have "fst (snd (replay_events dm math processor (event # rest) res w)) =
        fst (snd (replay_events dm math processor rest res1 w2))"
      using a b None by (simp add: Let_def res1_def split: prod.splits)
    with Cons.IH[of res1 w2] w1 w2 show ?thesis by simp
  qed
qed

text \<open>
  C6. A call of \<open>replay\<close> made while the flag of the instance is set fails at once with
  \<open>ReplayInProgress\<close> and changes nothing. A call made while it is clear leaves it clear
  on every way out, whether it returns a result, with or without failed records, or
  fails; a read error leaves the whole state as it was. So the next call passes the
  guard and enters the \<^verbatim>\<open>try\<close> block. Inside the \<^verbatim>\<open>try\<close> block the engine never clears
  the flag: with a processor and an observer that leave it alone it is still set at the
  end of the block.
\<close>

theorem replay_single_flight:
  "(isReplaying w \<longrightarrow>
      DurabilityManager_replay dm math count processor w = (Inl ReplayInProgress, w, []))
   \<and> (\<not> isReplaying w \<longrightarrow>
        \<not> isReplayInProgress (fst (snd (DurabilityManager_replay dm math count processor w)))
        \<and> DurabilityManager_replay dm math2 count2 processor2
              (fst (snd (DurabilityManager_replay dm math count processor w))) =
            (case replay_try dm math2 count2 processor2
                    ((fst (snd (DurabilityManager_replay dm math count processor w)))\<lparr>isReplaying := True\<rparr>) of
               (r, w1, tr) \<Rightarrow> (r, w1\<lparr>isReplaying := False\<rparr>, tr))
        \<and> (\<forall>e. WALManager_read (walFileName dm) (wm w) = Inl e \<longrightarrow>
              DurabilityManager_replay dm math count processor w = (Inl e, w, [])))
   \<and> ((\<forall>e w. isReplaying (snd (processor e w)) = isReplaying w)
        \<and> (\<forall>f e ok w. onEventProcessed dm = Some f \<longrightarrow> isReplaying (snd (f e ok w)) = isReplaying w) \<longrightarrow>
        isReplaying (fst (snd (replay_try dm math count processor (w\<lparr>isReplaying := True\<rparr>)))))"
proof (intro conjI impI allI)
  assume "isReplaying w"
  then show "DurabilityManager_replay dm math count processor w = (Inl ReplayInProgress, w, [])"
    by (simp add: DurabilityManager_replay_def)
next
  assume n: "\<not> isReplaying w"
  let ?w' = "fst (snd (DurabilityManager_replay dm math count processor w))"
  from n have f: "\<not> isReplaying ?w'"
    by (simp add: DurabilityManager_replay_def split: prod.splits)
  then show "\<not> isReplayInProgress ?w'" by (simp add: isReplayInProgress_def)
  from f show "DurabilityManager_replay dm math2 count2 processor2 ?w' =
      (case replay_try dm math2 count2 processor2 (?w'\<lparr>isReplaying := True\<rparr>) of
         (r, w1, tr) \<Rightarrow> (r, w1\<lparr>isReplaying := False\<rparr>, tr))"
    by (simp add: DurabilityManager_replay_def)
  fix e assume "WALManager_read (walFileName dm) (wm w) = Inl e"
  with n show "DurabilityManager_replay dm math count processor w = (Inl e, w, [])"
    by (simp add: DurabilityManager_replay_def replay_try_def)
next
  assume a: "(\<forall>e w. isReplaying (snd (processor e w)) = isReplaying w)
        \<and> (\<forall>f e ok w. onEventProcessed dm = Some f \<longrightarrow> isReplaying (snd (f e ok w)) = isReplaying w)"
  show "isReplaying (fst (snd (replay_try dm math count processor (w\<lparr>isReplaying := True\<rparr>))))"
  proof (cases "WALManager_read (walFileName dm) (wm w)")
    case (Inl e)
    then show ?thesis by (simp add: replay_try_def)
  next
    case (Inr content)
    then show ?thesis
      using replay_events_keeps_flag[of processor dm math "eventsToReplay count content" initial_result
          "w\<lparr>isReplaying := True\<rparr>"] a
      by (simp add: replay_try_def)
  qed
qed

theorem replay_single_flight_witness:
  "DurabilityManager_replay example_dm example_math 2 failing_processor (example_world\<lparr>isReplaying := True\<rparr>) =
     (Inl ReplayInProgress, example_world\<lparr>isReplaying := True\<rparr>, [])
   \<and> \<not> isReplaying example_world
   \<and> \<not> success (projr (fst (DurabilityManager_replay example_dm example_math 2 failing_processor example_world)))
   \<and> \<not> isReplayInProgress (fst (snd (DurabilityManager_replay example_dm example_math 2 failing_processor example_world)))
   \<and> fst (DurabilityManager_replay example_dm example_math 0 failing_processor
        (fst (snd (DurabilityManager_replay example_dm example_math 2 failing_processor example_world)))) =
       Inr initial_result
   \<and> DurabilityManager_replay example_dm example_math 2 failing_processor missing_file_world =
       (Inl (IOError ReadFile (js ''wal_logs/test.wal'')), missing_file_world, [])
   \<and> \<not> isReplaying missing_file_world"
proof -
  let ?r = "DurabilityManager_replay example_dm example_math 2 failing_processor example_world"
  have 1: "DurabilityManager_replay example_dm example_math 2 failing_processor (example_world\<lparr>isReplaying := True\<rparr>) =
     (Inl ReplayInProgress, example_world\<lparr>isReplaying := True\<rparr>, [])"
    using replay_single_flight [of "example_world\<lparr>isReplaying := True\<rparr>" example_dm example_math 2 failing_processor]
    by simp
  have n: "\<not> isReplaying example_world" by (simp add: example_world_fields)
  note t = replay_single_flight [of example_world example_dm example_math 2 failing_processor example_math 0 failing_processor]
  from t n have 2: "\<not> isReplayInProgress (fst (snd ?r))" by blast
  from t n have "DurabilityManager_replay example_dm example_math 0 failing_processor (fst (snd ?r)) =
      (case replay_try example_dm example_math 0 failing_processor ((fst (snd ?r))\<lparr>isReplaying := True\<rparr>) of
         (r, w1, tr) \<Rightarrow> (r, w1\<lparr>isReplaying := False\<rparr>, tr))" by blast
  then have 3: "fst (DurabilityManager_replay example_dm example_math 0 failing_processor (fst (snd ?r))) =
       Inr initial_result"
    by (simp add: example_replay replay_try_def example_dm_fields example_world_fields example_read
        eventsToReplay_def)
  have m: "\<not> isReplaying missing_file_world"
    by (simp add: missing_file_world_def example_world_fields)
  have e: "WALManager_read (walFileName example_dm) (wm missing_file_world) =
      Inl (IOError ReadFile (js ''wal_logs/test.wal''))"
    by (simp add: missing_file_world_def example_dm_fields WALManager_read_def example_registered_def
        example_manager_def example_fs_def example_wal_def fs_readFile_def  js_def)
  from replay_single_flight [of missing_file_world example_dm example_math 2 failing_processor] m e
  have 4: "DurabilityManager_replay example_dm example_math 2 failing_processor missing_file_world =
       (Inl (IOError ReadFile (js ''wal_logs/test.wal'')), missing_file_world, [])" by blast
  have 5: "\<not> success (projr (fst ?r))" by (simp add: example_replay)
  from 1 n 5 2 3 4 m show ?thesis by blast
qed

section \<open>The record window\<close>

lemma events_non_blank:
  "filter (\<lambda>line. 0 < length (trim line)) (split_nl content) = non_blank_lines content"
  by (simp add: non_blank_lines_def trim_Nil_iff)

lemma slice_last:
  assumes "0 < count"
  shows "array_slice (- count) xs = rev (take (min (nat count) (length xs)) (rev xs))"
proof -
  have "nat (max (int (length xs) - count) 0) = length xs - min (nat count) (length xs)"
    using assms by auto
  then show ?thesis using assms
    by (simp add: array_slice_def Let_def rev_take)
qed

lemma eventsToReplay_window: "eventsToReplay count content = spec_window count (non_blank_lines content)"
  unfolding eventsToReplay_def events_non_blank
  by (simp add: spec_window_def slice_last Let_def)

lemma lastN_window: "lastN count content = spec_window count (non_blank_lines content)"
  unfolding lastN_def events_non_blank
  by (simp add: spec_window_def slice_last Let_def)

text \<open>
  C5. For every content and every integer count, the selection in the engine's
  \<open>replay\<close> and the selection in \<open>inspect\<close> give the same window of the non-blank
  lines: empty for \<open>count \<le> 0\<close>, otherwise the last \<open>min count available\<close> lines, oldest
  first, so a count above the number of lines gives all of them. \<open>replay\<close> runs its
  loop over this window. \<open>inspect\<close> returns the decoded window for \<open>count \<ge> 0\<close>, and
  rejects a negative count before it reads the log.
\<close>

theorem window_selection:
  "eventsToReplay count content = spec_window count (non_blank_lines content)
   \<and> lastN count content = spec_window count (non_blank_lines content)
   \<and> length (spec_window count (non_blank_lines content)) =
       (if count \<le> 0 then 0 else min (nat count) (length (non_blank_lines content)))
   \<and> (\<not> isReplaying w \<and> WALManager_read (walFileName dm) (wm w) = Inr content \<longrightarrow>
        DurabilityManager_replay dm math count processor w =
          (case replay_events dm math processor (spec_window count (non_blank_lines content))
                  initial_result (w\<lparr>isReplaying := True\<rparr>) of
             (r, w1, tr) \<Rightarrow> (r, w1\<lparr>isReplaying := False\<rparr>, tr)))
   \<and> (0 \<le> count \<and> DurabilityManager_read dm w = Inr content \<longrightarrow>
        inspect dm JSON_parse count w =
          Inr (map (inspect_decode JSON_parse) (spec_window count (non_blank_lines content))))
   \<and> (count < 0 \<longrightarrow> inspect dm JSON_parse count w = Inl NegativeNumberOfEvents)"
proof (intro conjI impI)
  show "eventsToReplay count content = spec_window count (non_blank_lines content)"
    by (rule eventsToReplay_window)
  show "lastN count content = spec_window count (non_blank_lines content)"
    by (rule lastN_window)
  show "length (spec_window count (non_blank_lines content)) =
       (if count \<le> 0 then 0 else min (nat count) (length (non_blank_lines content)))"
    by (simp add: spec_window_def)
next
  assume "\<not> isReplaying w \<and> WALManager_read (walFileName dm) (wm w) = Inr content"
  then show "DurabilityManager_replay dm math count processor w =
          (case replay_events dm math processor (spec_window count (non_blank_lines content))
                  initial_result (w\<lparr>isReplaying := True\<rparr>) of
             (r, w1, tr) \<Rightarrow> (r, w1\<lparr>isReplaying := False\<rparr>, tr))"
    by (simp add: DurabilityManager_replay_def replay_try_def eventsToReplay_window)
next
  assume "0 \<le> count \<and> DurabilityManager_read dm w = Inr content"
  then show "inspect dm JSON_parse count w =
      Inr (map (inspect_decode JSON_parse) (spec_window count (non_blank_lines content)))"
    by (simp add: inspect_def lastN_window)
next
  assume "count < 0"
  then show "inspect dm JSON_parse count w = Inl NegativeNumberOfEvents"
    by (simp add: inspect_def)
qed

lemma example_lines: "non_blank_lines example_content = [js ''a'', js ''b'']"
  by (simp add: non_blank_lines_def example_content_def js_def LF_def is_ws_def)

theorem window_selection_witness:
  "eventsToReplay 1 example_content = [js ''b'']
   \<and> lastN 1 example_content = [js ''b'']
   \<and> eventsToReplay 100 example_content = [js ''a'', js ''b'']
   \<and> lastN 0 example_content = []
   \<and> inspect example_dm (\<lambda>s. None) 100 example_world = Inr [Val (JString (js ''a'')), Val (JString (js ''b''))]
   \<and> fst (DurabilityManager_replay example_dm example_math 0 failing_processor example_world) = Inr initial_result"
proof -
  have n: "\<not> isReplaying example_world \<and>
      WALManager_read (walFileName example_dm) (wm example_world) = Inr example_content"
    by (simp add: example_world_fields example_dm_fields example_read)
  have d: "(0::int) \<le> 100 \<and> DurabilityManager_read example_dm example_world = Inr example_content"
    by (simp add: DurabilityManager_read_def example_world_fields example_dm_fields example_read)
  have 1: "eventsToReplay 1 example_content = [js ''b''] \<and> lastN 1 example_content = [js ''b'']"
  proof -
    from window_selection [of 1 example_content]
    have "eventsToReplay 1 example_content = spec_window 1 (non_blank_lines example_content)
      \<and> lastN 1 example_content = spec_window 1 (non_blank_lines example_content)" by blast
    then show ?thesis by (simp add: example_lines spec_window_def)
  qed
  have 2: "eventsToReplay 100 example_content = [js ''a'', js ''b'']"
  proof -
    from window_selection [of 100 example_content]
    have "eventsToReplay 100 example_content = spec_window 100 (non_blank_lines example_content)"
      by blast
    then show ?thesis by (simp add: example_lines spec_window_def)
  qed
  have 3: "lastN 0 example_content = []"
  proof -
    from window_selection [of 0 example_content]
    have "lastN 0 example_content = spec_window 0 (non_blank_lines example_content)" by blast
    then show ?thesis by (simp add: spec_window_def)
  qed
  have 4: "inspect example_dm (\<lambda>s. None) 100 example_world =
      Inr [Val (JString (js ''a'')), Val (JString (js ''b''))]"
  proof -
    from window_selection [of 100 example_content example_world example_dm _ _ "\<lambda>s. None"] d
    have "inspect example_dm (\<lambda>s. None) 100 example_world =
        Inr (map (inspect_decode (\<lambda>s. None)) (spec_window 100 (non_blank_lines example_content)))"
      by blast
    then show ?thesis by (simp add: example_lines spec_window_def inspect_decode_def)
  qed
  have 5: "fst (DurabilityManager_replay example_dm example_math 0 failing_processor example_world) = Inr initial_result"
  proof -
    from window_selection [of 0 example_content example_world example_dm example_math failing_processor] n
    have "DurabilityManager_replay example_dm example_math 0 failing_processor example_world =
        (case replay_events example_dm example_math failing_processor
                (spec_window 0 (non_blank_lines example_content)) initial_result
                (example_world\<lparr>isReplaying := True\<rparr>) of
           (r, w1, tr) \<Rightarrow> (r, w1\<lparr>isReplaying := False\<rparr>, tr))" by blast
    then show ?thesis by (simp add: spec_window_def)
  qed
  from 1 2 3 4 5 show ?thesis by blast
qed

text \<open>
  At \<open>count = -1\<close> the engine's \<open>replay\<close> returns the result of an empty window,
  while \<open>inspect\<close> selects nothing: it fails with its validation error.
\<close>

theorem inspect_rejects_negative_count:
  "inspect example_dm (\<lambda>s. None) (- 1) example_world = Inl NegativeNumberOfEvents
   \<and> fst (DurabilityManager_replay example_dm example_math (- 1) failing_processor example_world) =
       Inr initial_result"
  by (simp add: inspect_def DurabilityManager_replay_def replay_try_def example_world_fields
      example_dm_fields example_read eventsToReplay_def)

section \<open>One append, one line\<close>

lemma split_nl_append: "split_nl (a @ LF # b) = split_nl a @ split_nl b"
proof (induction a)
  case Nil
  show ?case by simp
next
  case (Cons c a)
  then show ?case
    using split_nl_not_Nil[of a] by (cases "split_nl a") auto
qed

lemma split_nl_no_LF: "LF \<notin> set s \<Longrightarrow> split_nl s = [s]"
  by (induction s) auto

lemma hexdigit_not_LF: "hexdigit n \<noteq> LF"
proof -
  have "n mod 16 < length (js ''0123456789abcdef'')" by (simp add: js_def)
  then have "hexdigit n \<in> set (js ''0123456789abcdef'')"
    unfolding hexdigit_def by (rule nth_mem)
  moreover have "LF \<notin> set (js ''0123456789abcdef'')" by (simp add: js_def LF_def)
  ultimately show ?thesis by metis
qed

lemma unicodeEscape_no_LF: "LF \<notin> set (unicodeEscape c)"
  using hexdigit_not_LF by (auto simp: unicodeEscape_def js_def LF_def)

lemma quote_unit_no_LF: "LF \<notin> set (quote_unit c)"
  using unicodeEscape_no_LF[of c]
  by (auto simp: quote_unit_def js_def LF_def is_high_surrogate_def is_low_surrogate_def)

lemma quote_units_no_LF: "LF \<notin> set (quote_units s)"
proof (induction s rule: quote_units.induct)
  case 1
  show ?case by simp
next
  case (2 c)
  show ?case by (simp add: quote_unit_no_LF)
next
  case (3 c d ds)
  have "is_high_surrogate c \<Longrightarrow> c \<noteq> LF" by (auto simp: is_high_surrogate_def LF_def)
  moreover have "is_low_surrogate d \<Longrightarrow> d \<noteq> LF" by (auto simp: is_low_surrogate_def LF_def)
  ultimately show ?case using 3 quote_unit_no_LF[of c] by auto
qed

lemma QuoteJSONString_no_LF: "LF \<notin> set (QuoteJSONString s)"
  using quote_units_no_LF[of s] by (simp add: QuoteJSONString_def js_def LF_def)

lemma digit_not_LF: "js ''0123456789'' ! (n mod 10) \<noteq> LF"
proof -
  have "n mod 10 < length (js ''0123456789'')" by (simp add: js_def)
  then have "js ''0123456789'' ! (n mod 10) \<in> set (js ''0123456789'')" by (rule nth_mem)
  moreover have "LF \<notin> set (js ''0123456789'')" by (simp add: js_def LF_def)
  ultimately show ?thesis by metis
qed

lemma decimal_no_LF: "LF \<notin> set (decimal n)"
proof (induction n rule: decimal.induct)
  case (1 n)
  show ?case
  proof (cases "n < 10")
    case True
    then have "decimal n = [js ''0123456789'' ! (n mod 10)]" by simp
    then show ?thesis using digit_not_LF[of n] by simp
  next
    case False
    then have "decimal n = decimal (n div 10) @ [js ''0123456789'' ! (n mod 10)]"
      by (subst decimal.simps) simp
    then show ?thesis using 1 False digit_not_LF[of n] by simp
  qed
qed

lemma number_string_no_LF: "LF \<notin> set (number_string i)"
  using decimal_no_LF by (simp add: number_string_def js_def LF_def)

lemma JSON_stringify_no_LF: "LF \<notin> set (JSON_stringify entry)"
  using QuoteJSONString_no_LF number_string_no_LF
  by (simp add: JSON_stringify_def js_def LF_def)

lemma JSON_stringify_non_blank: "0 < length (trim (JSON_stringify entry))"
proof -
  have "\<not> list_all is_ws (JSON_stringify entry)"
    by (simp add: JSON_stringify_def js_def is_ws_def)
  then show ?thesis by (simp add: trim_Nil_iff)
qed

lemma count_after_append:
  assumes "LF \<notin> set line" and "0 < length (trim line)" and "stored = [] \<or> last stored = LF"
  shows "length (filter (\<lambda>l. 0 < length (trim l)) (split_nl (stored @ line @ [LF]))) =
    length (filter (\<lambda>l. 0 < length (trim l)) (split_nl stored)) + 1"
proof (cases "stored = []")
  case True
  have "split_nl (line @ LF # []) = [line, []]"
    using assms(1) by (simp add: split_nl_append split_nl_no_LF)
  with True assms(2) show ?thesis by (simp add: trim_def)
next
  case False
  with assms(3) have "stored = butlast stored @ [LF]"
    by (metis append_butlast_last_id)
  then obtain s0 where s: "stored = s0 @ [LF]" by blast
  have "split_nl (stored @ line @ [LF]) = split_nl s0 @ split_nl (line @ LF # [])"
    using split_nl_append[of s0 "line @ [LF]"] by (simp add: s)
  also have "\<dots> = split_nl s0 @ [line, []]"
    using assms(1) by (simp add: split_nl_append split_nl_no_LF)
  finally have a: "split_nl (stored @ line @ [LF]) = split_nl s0 @ [line, []]" .
  have b: "split_nl stored = split_nl s0 @ [[]]"
    using split_nl_append[of s0 "[]"] by (simp add: s)
  show ?thesis using assms(2) by (simp add: a b trim_def)
qed

lemma read_after_append:
  assumes "WALManager_read name m = Inr stored"
    and "WALManager_append name line m = (Inr u, m')"
  shows "WALManager_read name m' = Inr (stored @ line @ [LF])"
  using assms
  by (auto simp: WALManager_read_def WALManager_append_def fs_readFile_def fs_appendFile_def
      split: option.splits if_splits prod.splits)

text \<open>
  C10. The serialized envelope of any content holds no newline. When the stored content
  is empty or ends with a newline, a successful \<open>append\<close> adds the envelope and one
  newline to it, returns the identifier, and raises \<open>getEntryCount\<close> by exactly one.
\<close>

theorem append_adds_one_line:
  assumes "DurabilityManager_read dm w = Inr stored"
    and "stored = [] \<or> last stored = LF"
    and "DurableWal_append dm uuid now content w = (Inr i, w')"
  shows "LF \<notin> set (JSON_stringify \<lparr>entry_id = uuid, entry_timestamp = now, entry_data = content\<rparr>)
    \<and> i = uuid
    \<and> DurabilityManager_read dm w' =
        Inr (stored @ JSON_stringify \<lparr>entry_id = uuid, entry_timestamp = now, entry_data = content\<rparr> @ [LF])
    \<and> (\<exists>n. getEntryCount dm w = Inr n \<and> getEntryCount dm w' = Inr (n + 1))"
proof -
  let ?line = "JSON_stringify \<lparr>entry_id = uuid, entry_timestamp = now, entry_data = content\<rparr>"
  from assms(3) obtain u m' where
    a: "WALManager_append (walFileName dm) ?line (wm w) = (Inr u, m')" and w': "w' = w\<lparr>wm := m'\<rparr>"
    and i: "i = uuid"
    by (auto simp: DurableWal_append_def DurabilityManager_append_def Let_def
        split: if_splits prod.splits sum.splits)
  from assms(1) have r: "WALManager_read (walFileName dm) (wm w) = Inr stored"
    by (simp add: DurabilityManager_read_def)
  from read_after_append[OF r a] w'
  have r': "WALManager_read (walFileName dm) (wm w') = Inr (stored @ ?line @ [LF])" by simp
  have c: "length (filter (\<lambda>l. 0 < length (trim l)) (split_nl (stored @ ?line @ [LF]))) =
      length (filter (\<lambda>l. 0 < length (trim l)) (split_nl stored)) + 1"
    using count_after_append[OF JSON_stringify_no_LF JSON_stringify_non_blank assms(2)] .
  have "getEntryCount dm w = Inr (length (filter (\<lambda>l. 0 < length (trim l)) (split_nl stored)))"
    using r by (simp add: getEntryCount_def getEventCount_def)
  moreover have "getEntryCount dm w' =
      Inr (length (filter (\<lambda>l. 0 < length (trim l)) (split_nl stored)) + 1)"
    using r' c by (simp only: getEntryCount_def getEventCount_def sum.case)
  ultimately have "\<exists>n. getEntryCount dm w = Inr n \<and> getEntryCount dm w' = Inr (n + 1)" by blast
  with i r' show ?thesis
    by (simp add: JSON_stringify_no_LF DurabilityManager_read_def)
qed

lemma example_append:
  "wm w = example_registered\<lparr>fs := example_fs\<lparr>dirs := {js ''wal_logs''},
                files := [js ''wal_logs/test.wal'' \<mapsto> c]\<rparr>\<rparr> \<Longrightarrow>
   DurableWal_append example_dm (js ''id-1'') 7 example_payload w =
     (Inr (js ''id-1''),
      w\<lparr>wm := example_registered\<lparr>fs := example_fs\<lparr>dirs := {js ''wal_logs''},
                files := [js ''wal_logs/test.wal'' \<mapsto>
                  c @ JSON_stringify \<lparr>entry_id = js ''id-1'', entry_timestamp = 7,
                                      entry_data = example_payload\<rparr> @ [LF]]\<rparr>\<rparr>\<rparr>)"
  by (simp add: DurableWal_append_def DurabilityManager_append_def WALManager_append_def
      fs_appendFile_def example_dm_fields example_registered_def example_manager_def example_fs_def
      example_wal_def  js_def LF_def trim_def is_ws_def Let_def example_payload_def)

lemma example_stringify:
  "JSON_stringify \<lparr>entry_id = js ''id-1'', entry_timestamp = 7, entry_data = example_payload\<rparr> =
     js [CHR ''{'', CHR 0x22, CHR ''i'', CHR ''d'', CHR 0x22, CHR '':'', CHR 0x22] @ js ''id-1'' @
     js [CHR 0x22, CHR '','', CHR 0x22] @ js ''timestamp'' @ js [CHR 0x22, CHR '':''] @ js ''7'' @
     js [CHR '','', CHR 0x22] @ js ''data'' @ js [CHR 0x22, CHR '':'', CHR 0x22] @
     js [CHR ''x'', CHR 0x5C, CHR ''n'', CHR ''y'', CHR 0x22] @ js ''}''"
  by (simp add: JSON_stringify_def QuoteJSONString_def quote_unit_def number_string_def js_def LF_def
      is_high_surrogate_def is_low_surrogate_def example_payload_def)

lemma count_lines_eval:
  "WALManager_read (walFileName dm) (wm w) = Inr c \<Longrightarrow>
   getEntryCount dm w = Inr (length (filter (\<lambda>l. 0 < length (trim l)) (split_nl c)))"
  by (simp add: getEntryCount_def getEventCount_def)

lemma example_count: "getEntryCount example_dm example_world = Inr 2"
proof -
  have "WALManager_read (walFileName example_dm) (wm example_world) = Inr example_content"
    by (simp add: example_dm_fields example_world_fields example_read)
  from count_lines_eval[OF this] show ?thesis
    by (simp add: example_content_def js_def LF_def trim_def is_ws_def)
qed

theorem append_adds_one_line_witness:
  "DurabilityManager_read example_dm example_world = Inr example_content
   \<and> last example_content = LF
   \<and> fst (DurableWal_append example_dm (js ''id-1'') 7 example_payload example_world) =
       Inr (js ''id-1'')
   \<and> getEntryCount example_dm example_world = Inr 2
   \<and> getEntryCount example_dm
        (snd (DurableWal_append example_dm (js ''id-1'') 7 example_payload example_world)) =
       Inr 3"
proof -
  let ?a = "DurableWal_append example_dm (js ''id-1'') 7 example_payload example_world"
  have r: "DurabilityManager_read example_dm example_world = Inr example_content"
    by (simp add: DurabilityManager_read_def example_dm_fields example_world_fields example_read)
  have l: "example_content = [] \<or> last example_content = LF"
    by (simp add: example_content_def)
  have w: "wm example_world = example_registered\<lparr>fs := example_fs\<lparr>dirs := {js ''wal_logs''},
                files := [js ''wal_logs/test.wal'' \<mapsto> example_content]\<rparr>\<rparr>"
    by (simp add: example_world_fields example_registered_def)
  have a: "?a = (Inr (js ''id-1''), snd ?a)"
    by (simp add: example_append[OF w])
  from append_adds_one_line [OF r l a] obtain n where
    "getEntryCount example_dm example_world = Inr n" "getEntryCount example_dm (snd ?a) = Inr (n + 1)"
    by blast
  with example_count have "getEntryCount example_dm (snd ?a) = Inr 3" by simp
  moreover have "last example_content = LF" by (simp add: example_content_def)
  moreover have "fst ?a = Inr (js ''id-1'')" by (simp add: example_append[OF w])
  ultimately show ?thesis using r example_count by simp
qed

text \<open>
  On a log whose stored content is \<^verbatim>\<open>abc\<close>, with no newline at its end, a successful
  \<open>append\<close> extends that line: \<open>getEntryCount\<close> is one before and one after.
\<close>

theorem append_to_unterminated_line:
  "getEntryCount example_dm unterminated_world = Inr 1
   \<and> fst (DurableWal_append example_dm (js ''id-1'') 7 example_payload unterminated_world) =
       Inr (js ''id-1'')
   \<and> getEntryCount example_dm
        (snd (DurableWal_append example_dm (js ''id-1'') 7 example_payload unterminated_world)) =
       Inr 1"
proof -
  let ?line = "JSON_stringify \<lparr>entry_id = js ''id-1'', entry_timestamp = 7,
      entry_data = example_payload\<rparr>"
  let ?a = "DurableWal_append example_dm (js ''id-1'') 7 example_payload unterminated_world"
  have w: "wm unterminated_world = example_registered\<lparr>fs := example_fs\<lparr>dirs := {js ''wal_logs''},
                files := [js ''wal_logs/test.wal'' \<mapsto> js ''abc'']\<rparr>\<rparr>"
    by (simp add: unterminated_world_def)
  have rd: "WALManager_read (js ''test.wal'') (example_registered\<lparr>fs := example_fs\<lparr>dirs := {js ''wal_logs''},
                files := [js ''wal_logs/test.wal'' \<mapsto> c]\<rparr>\<rparr>) = Inr c" for c
    by (simp add: WALManager_read_def example_registered_def example_manager_def example_fs_def
        example_wal_def fs_readFile_def  js_def)
  have "WALManager_read (walFileName example_dm) (wm unterminated_world) = Inr (js ''abc'')"
    by (simp add: w rd example_dm_fields)
  from count_lines_eval[OF this] have 1: "getEntryCount example_dm unterminated_world = Inr 1"
    by (simp add: js_def LF_def trim_def is_ws_def)
  have a: "?a = (Inr (js ''id-1''), unterminated_world\<lparr>wm := example_registered\<lparr>fs := example_fs\<lparr>dirs := {js ''wal_logs''},
                files := [js ''wal_logs/test.wal'' \<mapsto> js ''abc'' @ ?line @ [LF]]\<rparr>\<rparr>\<rparr>)"
    by (rule example_append[OF w])
  have "WALManager_read (walFileName example_dm) (wm (snd ?a)) = Inr (js ''abc'' @ ?line @ [LF])"
    by (simp add: a rd example_dm_fields)
  from count_lines_eval[OF this]
  have c: "getEntryCount example_dm (snd ?a) =
      Inr (length (filter (\<lambda>l. 0 < length (trim l)) (split_nl ((js ''abc'' @ ?line) @ LF # []))))"
    by simp
  have n: "LF \<notin> set (js ''abc'' @ ?line)"
    using JSON_stringify_no_LF by (simp add: js_def LF_def)
  have "split_nl ((js ''abc'' @ ?line) @ LF # []) = [js ''abc'' @ ?line, []]"
    by (simp only: split_nl_append split_nl_no_LF[OF n] split_nl.simps append.simps)
  moreover have "0 < length (trim (js ''abc'' @ ?line))"
  proof -
    have "\<not> list_all is_ws (js ''abc'' @ ?line)" by (simp add: js_def is_ws_def)
    then show ?thesis by (simp add: trim_Nil_iff)
  qed
  ultimately have 3: "getEntryCount example_dm (snd ?a) = Inr 1"
    using c by (simp add: trim_def)
  from 1 a 3 show ?thesis by simp
qed

section \<open>The wrapped processor\<close>

text \<open>
  C1. What the wrapper does with a line. When the line parses and \<^verbatim>\<open>entry.data\<close> can be
  read, the processor is invoked with that value, and if it returns the wrapper returns.
  When \<^verbatim>\<open>JSON.parse\<close> throws or the value is \<^verbatim>\<open>null\<close>, the processor is invoked with
  the line itself. When the processor throws on the value, the \<^verbatim>\<open>catch\<close> block takes
  that error too: the processor is invoked a second time, with the line, and the outcome
  of the wrapper is the outcome of this second call. If that call returns, the retry loop
  sees one successful attempt: the record is processed, with no sleep and no retry.
\<close>

theorem wrappedProcessor_paths:
  "(JSON_parse line = Some entry \<and> get_data entry = Inr d \<and> processor d w = (None, w1) \<longrightarrow>
      wrappedProcessor JSON_parse processor line w = (None, w1))
   \<and> (JSON_parse line = None \<or> (\<exists>entry. JSON_parse line = Some entry \<and> get_data entry = Inl TypeError) \<longrightarrow>
      wrappedProcessor JSON_parse processor line w = processor (Val (JString line)) w)
   \<and> (JSON_parse line = Some entry \<and> get_data entry = Inr d \<and> processor d w = (Some e, w1) \<longrightarrow>
      wrappedProcessor JSON_parse processor line w = processor (Val (JString line)) w1)
   \<and> (JSON_parse line = Some entry \<and> get_data entry = Inr d \<and> processor d w = (Some e, w1)
        \<and> processor (Val (JString line)) w1 = (None, w2) \<and> 0 \<le> maxRetries (retryConfig dm) \<longrightarrow>
      processEventWithRetry dm math line (wrappedProcessor JSON_parse processor) w =
        (True, w2, [Invoke line]))"
proof (intro conjI impI)
  assume "JSON_parse line = Some entry \<and> get_data entry = Inr d \<and> processor d w = (None, w1)"
  then show "wrappedProcessor JSON_parse processor line w = (None, w1)"
    by (simp add: wrappedProcessor_def)
next
  assume "JSON_parse line = None \<or> (\<exists>entry. JSON_parse line = Some entry \<and> get_data entry = Inl TypeError)"
  then show "wrappedProcessor JSON_parse processor line w = processor (Val (JString line)) w"
    by (auto simp: wrappedProcessor_def)
next
  assume "JSON_parse line = Some entry \<and> get_data entry = Inr d \<and> processor d w = (Some e, w1)"
  then show "wrappedProcessor JSON_parse processor line w = processor (Val (JString line)) w1"
    by (simp add: wrappedProcessor_def)
next
  assume a: "JSON_parse line = Some entry \<and> get_data entry = Inr d \<and> processor d w = (Some e, w1)
        \<and> processor (Val (JString line)) w1 = (None, w2) \<and> 0 \<le> maxRetries (retryConfig dm)"
  then have "wrappedProcessor JSON_parse processor line w = (None, w2)"
    by (simp add: wrappedProcessor_def)
  moreover from a have "int 0 \<le> maxRetries (retryConfig dm)" by simp
  ultimately have "retry_loop (retryConfig dm) math line (wrappedProcessor JSON_parse processor) 0 None w =
      (True, w2, [Invoke line])"
    by (subst retry_loop.simps) simp
  then show "processEventWithRetry dm math line (wrappedProcessor JSON_parse processor) w =
        (True, w2, [Invoke line])"
    by (simp add: processEventWithRetry_def)
qed

lemma example_line_text:
  "example_line = js [CHR ''{'', CHR 0x22, CHR ''i'', CHR ''d'', CHR 0x22, CHR '':'', CHR 0x22, CHR ''1'', CHR 0x22,
      CHR '','', CHR 0x22] @ js ''timestamp'' @ js [CHR 0x22, CHR '':'', CHR ''0'', CHR '','', CHR 0x22] @
      js ''data'' @ js [CHR 0x22, CHR '':'', CHR 0x22, CHR ''x'', CHR 0x22, CHR ''}'']"
  by (simp add: example_line_def JSON_stringify_def QuoteJSONString_def quote_unit_def number_string_def
      js_def is_high_surrogate_def is_low_surrogate_def)

lemma example_line_neq: "example_line \<noteq> js ''x''"
  by (simp add: example_line_text js_def)

lemma envelope_events: "eventsToReplay 1 (example_line @ [LF]) = [example_line]"
proof -
  have n: "LF \<notin> set example_line"
    by (simp add: example_line_def JSON_stringify_no_LF)
  have s: "split_nl (example_line @ LF # []) = [example_line, []]"
    by (simp add: split_nl_append split_nl_no_LF[OF n])
  have b: "0 < length (trim example_line)"
    unfolding example_line_def by (rule JSON_stringify_non_blank)
  have "filter (\<lambda>line. 0 < length (trim line)) (split_nl (example_line @ [LF])) = [example_line]"
    using s b by (simp add: trim_def)
  then show ?thesis
    unfolding eventsToReplay_def by (simp add: array_slice_def)
qed

lemma envelope_replay:
  "DurableWal_replay example_dm example_math example_parse 1 (Some picky_processor) envelope_world =
     (Inr (), envelope_world\<lparr>caller := 2\<rparr>, [Invoke example_line])"
proof -
  have g: "get_data (JObject [(js ''id'', JString (js ''1'')), (js ''timestamp'', JNumber 0),
                 (js ''data'', JString (js ''x''))]) = Inr (Val (JString (js ''x'')))"
    by (simp add: js_def)
  have w: "wrappedProcessor example_parse picky_processor example_line w =
      (None, w\<lparr>caller := caller w + 2\<rparr>)" for w :: "nat world"
    by (simp add: wrappedProcessor_def example_parse_def picky_processor_def g example_line_neq
        del: get_data.simps)
  have p: "processEventWithRetry example_dm example_math example_line
        (wrappedProcessor example_parse picky_processor) w =
       (True, w\<lparr>caller := caller w + 2\<rparr>, [Invoke example_line])" for w :: "nat world"
    by (simp add: processEventWithRetry_def example_dm_fields DEFAULT_RETRY_CONFIG_def
        retry_loop.simps w)
  have n: "notify example_dm e ok w = (None, w, [])" for e ok and w :: "nat world"
    by (simp add: notify_def example_dm_fields)
  have r: "WALManager_read (js ''test.wal'') (wm envelope_world) = Inr (example_line @ [LF])"
    by (simp add: envelope_world_def WALManager_read_def example_registered_def example_manager_def
        example_fs_def example_wal_def fs_readFile_def  js_def)
  have f: "\<not> isReplaying envelope_world" "caller envelope_world = 0"
    by (simp_all add: envelope_world_def example_world_def)
  show ?thesis
    by (simp add: DurableWal_replay_def DurabilityManager_replay_def replay_try_def example_dm_fields
        r f envelope_events p n initial_result_def Let_def)
qed

theorem wrappedProcessor_paths_witness:
  "example_parse example_line =
     Some (JObject [(js ''id'', JString (js ''1'')), (js ''timestamp'', JNumber 0),
                    (js ''data'', JString (js ''x''))])
   \<and> picky_processor (Val (JString (js ''x''))) example_world =
       (Some (Thrown (js ''boom'')), example_world\<lparr>caller := 1\<rparr>)
   \<and> wrappedProcessor example_parse picky_processor example_line example_world =
       (None, example_world\<lparr>caller := 2\<rparr>)
   \<and> processEventWithRetry example_dm example_math example_line
        (wrappedProcessor example_parse picky_processor) example_world =
       (True, example_world\<lparr>caller := 2\<rparr>, [Invoke example_line])
   \<and> DurableWal_replay example_dm example_math example_parse 1 (Some picky_processor) envelope_world =
       (Inr (), envelope_world\<lparr>caller := 2\<rparr>, [Invoke example_line])"
proof -
  let ?obj = "JObject [(js ''id'', JString (js ''1'')), (js ''timestamp'', JNumber 0),
                    (js ''data'', JString (js ''x''))]"
  have p: "example_parse example_line = Some ?obj" by (simp add: example_parse_def)
  have g: "get_data ?obj = Inr (Val (JString (js ''x'')))" by (simp add: js_def)
  have c0: "caller example_world = 0" by (simp add: example_world_def)
  have f: "picky_processor (Val (JString (js ''x''))) example_world =
       (Some (Thrown (js ''boom'')), example_world\<lparr>caller := 1\<rparr>)"
    by (simp add: picky_processor_def c0)
  from wrappedProcessor_paths [of example_parse example_line ?obj "Val (JString (js ''x''))"
      picky_processor example_world "example_world\<lparr>caller := 1\<rparr>" "Thrown (js ''boom'')"] p g f
  have "wrappedProcessor example_parse picky_processor example_line example_world =
      picky_processor (Val (JString example_line)) (example_world\<lparr>caller := 1\<rparr>)" by blast
  then have w: "wrappedProcessor example_parse picky_processor example_line example_world =
       (None, example_world\<lparr>caller := 2\<rparr>)"
    by (simp add: picky_processor_def example_line_neq)
  have "processEventWithRetry example_dm example_math example_line
        (wrappedProcessor example_parse picky_processor) example_world =
       (True, example_world\<lparr>caller := 2\<rparr>, [Invoke example_line])"
    by (simp add: processEventWithRetry_def example_dm_fields DEFAULT_RETRY_CONFIG_def
        retry_loop.simps w)
  with p f w envelope_replay show ?thesis by blast
qed

end
